theory Spec2Isabelle
  imports Complex_Main "HOL-Library.AList"
begin

section \<open>The DEV.to top-posts feed builder (devto\_top\_month\_rss.py)\<close>

text \<open>
  A shallow embedding of the pipeline of \<^verbatim>\<open>devto_top_month_rss.py\<close>:
  \<^verbatim>\<open>fetch_json\<close>, \<^verbatim>\<open>extract_paragraphs\<close>, \<^verbatim>\<open>paragraphs_to_html\<close>,
  \<^verbatim>\<open>build_rss\<close>, \<^verbatim>\<open>load_state\<close>, \<^verbatim>\<open>save_state\<close>, \<^verbatim>\<open>collect_items\<close>,
  \<^verbatim>\<open>write_feed\<close> and the \<^verbatim>\<open>refresh\<close> closure of \<^verbatim>\<open>main\<close>.

  A Python \<^verbatim>\<open>str\<close> is a \<^typ>\<open>string\<close>: a list of 8-bit characters, read as the code
  points U+0000 to U+00FF. Code points beyond U+00FF are outside the model.

  An exception is a value of the type \<open>error\<close>: a function that can raise returns
  \<open>error + 'a\<close>. What the program does to the network, the clock, the random numbers,
  the files and the standard output is a change of an explicit \<open>world\<close>. The libraries
  (\<^verbatim>\<open>requests\<close>, \<^verbatim>\<open>bs4\<close>, \<^verbatim>\<open>json\<close>, \<^verbatim>\<open>html\<close>, \<^verbatim>\<open>email.utils\<close>, \<^verbatim>\<open>datetime\<close>)
  are modelled by what their documentation says of the calls the program makes.
\<close>

subsection \<open>Strings\<close>

text \<open>
  \<^verbatim>\<open>str.strip()\<close> removes leading and trailing whitespace; these are the characters
  below U+0100 for which \<^verbatim>\<open>str.isspace()\<close> holds.
\<close>

definition is_space :: "char \<Rightarrow> bool" where
  "is_space c \<longleftrightarrow>
     c \<in> set [CHR 0x09, CHR 0x0A, CHR 0x0B, CHR 0x0C, CHR 0x0D, CHR 0x1C, CHR 0x1D, CHR 0x1E,
              CHR 0x1F, CHR 0x20, CHR 0x85, CHR 0xA0]"

definition strip :: "string \<Rightarrow> string" where
  "strip s = rev (dropWhile is_space (rev (dropWhile is_space s)))"

text \<open>\<^verbatim>\<open>sep.join(xs)\<close>\<close>

fun join :: "string \<Rightarrow> string list \<Rightarrow> string" where
  "join sep [] = []"
| "join sep [x] = x"
| "join sep (x # y # ys) = x @ sep @ join sep (y # ys)"

text \<open>\<^verbatim>\<open>s.replace(c, r)\<close> for a one-character pattern \<open>c\<close>.\<close>

definition replace_char :: "char \<Rightarrow> string \<Rightarrow> string \<Rightarrow> string" where
  "replace_char c r s = concat (map (\<lambda>x. if x = c then r else [x]) s)"

text \<open>
  \<^verbatim>\<open>html.escape(s)\<close> with its default \<^verbatim>\<open>quote=True\<close>: five replacements, the ampersand
  first.
\<close>

definition escape :: "string \<Rightarrow> string" where
  "escape s =
     replace_char (CHR 0x27) ''&#x27;''
       (replace_char (CHR 0x22) ''&quot;''
         (replace_char CHR ''>'' ''&gt;''
           (replace_char CHR ''<'' ''&lt;''
             (replace_char CHR ''&'' ''&amp;'' s))))"

subsection \<open>The parsed document\<close>

text \<open>
  \<^verbatim>\<open>BeautifulSoup(body_html, "html.parser")\<close> is the library's; the model starts from the
  tree it returns. A \<open>Text\<close> node is a string that \<^verbatim>\<open>stripped_strings\<close> yields (a
  \<^verbatim>\<open>NavigableString\<close> or \<^verbatim>\<open>CData\<close>), a \<open>Special\<close> node one it skips (a comment, the
  content of a script or style element, a declaration), a \<open>Tag\<close> an element with its
  name and children. The soup is the list of the top-level nodes.
\<close>

datatype node = Text string | Special string | Tag string "node list"

text \<open>The strings below a node, in document order.\<close>

fun descendant_strings :: "node \<Rightarrow> string list" where
  "descendant_strings (Text s) = [s]"
| "descendant_strings (Special s) = []"
| "descendant_strings (Tag n cs) = concat (map descendant_strings cs)"

text \<open>
  \<^verbatim>\<open>node.stripped_strings\<close>: every string below the tag, stripped, the empty ones
  dropped.
\<close>

fun stripped_strings :: "node \<Rightarrow> string list" where
  "stripped_strings (Tag n cs) =
     filter (\<lambda>s. s \<noteq> []) (map strip (concat (map descendant_strings cs)))"
| "stripped_strings (Text s) = []"
| "stripped_strings (Special s) = []"

text \<open>
  \<^verbatim>\<open>find_all(names)\<close>: the tags with one of the names, in document order (a tag comes
  before the tags inside it). \<open>matching_tags\<close> is the part of one node, itself included.
\<close>

fun matching_tags :: "string list \<Rightarrow> node \<Rightarrow> node list" where
  "matching_tags names (Text s) = []"
| "matching_tags names (Special s) = []"
| "matching_tags names (Tag n cs) =
     (if n \<in> set names then [Tag n cs] else []) @ concat (map (matching_tags names) cs)"

definition find_all :: "string list \<Rightarrow> node list \<Rightarrow> node list" where
  "find_all names soup = concat (map (matching_tags names) soup)"

subsection \<open>extract\_paragraphs\<close>

definition UNAVAILABLE :: string where
  "UNAVAILABLE = ''Top DEV.to article snippet unavailable.''"

definition READ_THE_REST :: string where
  "READ_THE_REST = ''Read the rest of the article at the source.''"

definition BLOCK_TAGS :: "string list" where
  "BLOCK_TAGS = [''p'', ''blockquote'', ''li'']"

text \<open>\<^verbatim>\<open>" ".join(node.stripped_strings)\<close>\<close>

definition node_text :: "node \<Rightarrow> string" where
  "node_text n = join '' '' (stripped_strings n)"

text \<open>
  The first loop, over the nodes still to visit, with the list built so far: a node with
  empty text is skipped, and the loop breaks once the list holds 20 entries.
\<close>

fun collect_paragraphs :: "node list \<Rightarrow> string list \<Rightarrow> string list" where
  "collect_paragraphs [] paragraphs = paragraphs"
| "collect_paragraphs (n # ns) paragraphs =
     (if node_text n = [] then collect_paragraphs ns paragraphs
      else if length (paragraphs @ [node_text n]) \<ge> 20 then paragraphs @ [node_text n]
      else collect_paragraphs ns (paragraphs @ [node_text n]))"

text \<open>
  \<^verbatim>\<open>fallback_text: str | None\<close> is a \<^typ>\<open>string option\<close>; it is true in a condition
  when it is a non-empty string.
\<close>

definition extract_paragraphs :: "node list \<Rightarrow> string option \<Rightarrow> string list" where
  "extract_paragraphs soup fallback_text =
     (let paragraphs = collect_paragraphs (find_all BLOCK_TAGS soup) [];
          paragraphs =
            (case fallback_text of
               Some fb \<Rightarrow> if length paragraphs < 2 \<and> fb \<noteq> [] then paragraphs @ [fb] else paragraphs
             | None \<Rightarrow> paragraphs);
          paragraphs = (if length paragraphs < 2 then paragraphs @ [UNAVAILABLE] else paragraphs);
          total_paragraphs = length (filter (\<lambda>n. node_text n \<noteq> []) (find_all BLOCK_TAGS soup));
          paragraphs =
            (if total_paragraphs > 20 \<and> length paragraphs \<ge> 20 then paragraphs @ [READ_THE_REST]
             else paragraphs)
      in take 21 paragraphs)"

text \<open>
  For the statements: the texts of the candidate nodes (paragraph, blockquote and list
  item tags) whose text is not empty, in document order.
\<close>

definition snippets :: "node list \<Rightarrow> string list" where
  "snippets soup = filter (\<lambda>t. t \<noteq> []) (map node_text (find_all BLOCK_TAGS soup))"

text \<open>What a fallback argument adds when it is used: nothing when it is absent or empty.\<close>

definition supplied :: "string option \<Rightarrow> string list" where
  "supplied fb = (case fb of Some s \<Rightarrow> if s = [] then [] else [s] | None \<Rightarrow> [])"


subsection \<open>paragraphs\_to\_html and build\_rss\<close>

definition FEED_TITLE :: string where
  "FEED_TITLE = ''DEV.to Top Posts This Month''"

definition FEED_LINK :: string where
  "FEED_LINK = ''https://dev.to/top/month''"

definition FEED_DESCRIPTION :: string where
  "FEED_DESCRIPTION = ''Top DEV.to posts from the last 30 days.''"

definition paragraphs_to_html :: "string list \<Rightarrow> string" where
  "paragraphs_to_html paragraphs = concat (map (\<lambda>t. ''<p>'' @ escape t @ ''</p>'') paragraphs)"

text \<open>
  The entries of an item dictionary that \<^verbatim>\<open>build_rss\<close> reads. \<^verbatim>\<open>html.escape\<close> needs a
  \<^verbatim>\<open>str\<close>, so here the title and the link are strings; \<open>write_feed\<close> below holds the
  case of an item whose title or link is not one.
\<close>

record feed_item =
  title :: string
  link :: string
  pub_date :: string
  content :: string

text \<open>
  The seven lines \<^verbatim>\<open>channel_parts\<close> starts with; \<open>now\<close> is the formatted build time,
  which \<^verbatim>\<open>build_rss\<close> reads from the clock (see \<open>write_feed\<close>).
\<close>

definition channel_head :: "string \<Rightarrow> string list" where
  \<open>channel_head now =
     [''<?xml version="1.0" encoding="UTF-8"?>'',
      ''<rss version="2.0" xmlns:content="http://purl.org/rss/1.0/modules/content/">'',
      ''  <channel>'',
      ''    <title>'' @ escape FEED_TITLE @ ''</title>'',
      ''    <link>'' @ escape FEED_LINK @ ''</link>'',
      ''    <description>'' @ escape FEED_DESCRIPTION @ ''</description>'',
      ''    <lastBuildDate>'' @ now @ ''</lastBuildDate>'']\<close>

text \<open>The eight lines the loop appends for one item.\<close>

definition item_parts :: "feed_item \<Rightarrow> string list" where
  \<open>item_parts item =
     [''    <item>'',
      ''      <title>'' @ escape (title item) @ ''</title>'',
      ''      <link>'' @ escape (link item) @ ''</link>'',
      ''      <guid isPermaLink="true">'' @ escape (link item) @ ''</guid>'',
      ''      <pubDate>'' @ pub_date item @ ''</pubDate>'',
      ''      <description><![CDATA['' @ content item @ '']]></description>'',
      ''      <content:encoded><![CDATA['' @ content item @ '']]></content:encoded>'',
      ''    </item>'']\<close>

definition channel_parts :: "string \<Rightarrow> feed_item list \<Rightarrow> string list" where
  "channel_parts now items =
     channel_head now @ concat (map item_parts items) @ [''  </channel>'', ''</rss>'']"

definition build_rss :: "string \<Rightarrow> feed_item list \<Rightarrow> string" where
  "build_rss now items = join ''\<newline>'' (channel_parts now items)"

subsection \<open>Reading a document as XML text\<close>

text \<open>
  For the statements about escaping. \<open>outside_cdata False doc\<close> is the document with
  every CDATA section removed: a section runs from \<^verbatim>\<open><![CDATA[\<close> to the first
  \<^verbatim>\<open>]]>\<close> after it. \<open>markup_chars\<close> keeps the angle brackets of what is left, and
  \<open>tag_delimiters n\<close> is what \<open>n\<close> tags contribute. \<open>entity_amps\<close> holds when every
  ampersand starts one of the five entities \<^verbatim>\<open>html.escape\<close> writes.
\<close>

fun starts_with :: "string \<Rightarrow> string \<Rightarrow> bool" where
  "starts_with [] s = True"
| "starts_with (p # ps) [] = False"
| "starts_with (p # ps) (c # cs) = (p = c \<and> starts_with ps cs)"

function outside_cdata :: "bool \<Rightarrow> string \<Rightarrow> string" where
  "outside_cdata inside [] = []"
| "outside_cdata False (c # cs) =
     (if starts_with ''<![CDATA['' (c # cs) then outside_cdata True (drop 9 (c # cs))
      else c # outside_cdata False cs)"
| "outside_cdata True (c # cs) =
     (if starts_with '']]>'' (c # cs) then outside_cdata False (drop 3 (c # cs))
      else outside_cdata True cs)"
  by pat_completeness auto
termination
  by (relation "measure (\<lambda>(inside, s). length s)") auto

definition markup_chars :: "string \<Rightarrow> string" where
  "markup_chars doc = filter (\<lambda>c. c = CHR ''<'' \<or> c = CHR ''>'') (outside_cdata False doc)"

definition tag_delimiters :: "nat \<Rightarrow> string" where
  "tag_delimiters n = concat (replicate n ''<>'')"

fun entity_amps :: "string \<Rightarrow> bool" where
  "entity_amps [] = True"
| "entity_amps (c # cs) =
     ((if c = CHR ''&'' then
         starts_with ''amp;'' cs \<or> starts_with ''lt;'' cs \<or> starts_with ''gt;'' cs \<or>
         starts_with ''quot;'' cs \<or> starts_with ''#x27;'' cs
       else True) \<and> entity_amps cs)"

text \<open>A string that does not hold the end mark of a CDATA section.\<close>

fun no_cdata_end :: "string \<Rightarrow> bool" where
  "no_cdata_end [] = True"
| "no_cdata_end (c # cs) = (\<not> starts_with '']]>'' (c # cs) \<and> no_cdata_end cs)"

text \<open>A string without \<^verbatim>\<open><\<close>, \<^verbatim>\<open>>\<close> and \<^verbatim>\<open>&\<close>.\<close>

definition plain :: "string \<Rightarrow> bool" where
  "plain s = list_all (\<lambda>c. c \<noteq> CHR ''<'' \<and> c \<noteq> CHR ''>'' \<and> c \<noteq> CHR ''&'') s"

text \<open>XML entity escaping, character by character.\<close>

definition xml_entity :: "char \<Rightarrow> string" where
  "xml_entity c =
     (if c = CHR ''&'' then ''&amp;'' else if c = CHR ''<'' then ''&lt;''
      else if c = CHR ''>'' then ''&gt;'' else if c = CHR 0x22 then ''&quot;''
      else if c = CHR 0x27 then ''&#x27;'' else [c])"

text \<open>Lines, each followed by a line break.\<close>

definition lines_block :: "string list \<Rightarrow> string" where
  "lines_block ls = concat (map (\<lambda>l. l @ ''\<newline>'') ls)"



text \<open>For the proofs: every \<^verbatim>\<open>>\<close> of the string follows a \<^verbatim>\<open>p\<close> (\<open>prev\<close> stands before the string).\<close>

fun gt_follows_p :: "char \<Rightarrow> string \<Rightarrow> bool" where
  "gt_follows_p prev [] = True"
| "gt_follows_p prev (c # cs) =
     ((if c = CHR ''>'' then prev = CHR ''p'' else True) \<and> gt_follows_p c cs)"

subsection \<open>Python values and exceptions\<close>

text \<open>
  The values \<^verbatim>\<open>json\<close> decodes to: \<^verbatim>\<open>None\<close>, \<^verbatim>\<open>bool\<close>, \<^verbatim>\<open>int\<close>, \<^verbatim>\<open>str\<close>, \<^verbatim>\<open>list\<close> and
  \<^verbatim>\<open>dict\<close> (a dictionary keeps its entries in insertion order, as an association list).
  Numbers with a fraction or an exponent (\<^verbatim>\<open>float\<close>) are outside the model.
\<close>

datatype json =
  JNull | JBool bool | JInt int | JStr string | JArr "json list" | JObj "(string \<times> json) list"

text \<open>
  The exceptions the pipeline can end with. \<open>RequestException\<close> stands for what
  \<^verbatim>\<open>session.get\<close> raises itself (no connection, timeout), \<open>HTTPError\<close> carries the status
  that \<^verbatim>\<open>raise_for_status\<close> refused, \<open>ParserRejectedMarkup\<close> is what \<^verbatim>\<open>BeautifulSoup\<close>
  raises for a body its parser gives up on.
\<close>

datatype error =
  HTTPError nat | RequestException | JSONDecodeError | ValueError | KeyError | TypeError
  | AttributeError | OverflowError | ParserRejectedMarkup | RuntimeError string

text \<open>The truth value of a value in a condition.\<close>

fun truthy :: "json \<Rightarrow> bool" where
  "truthy JNull = False"
| "truthy (JBool b) = b"
| "truthy (JInt n) = (n \<noteq> 0)"
| "truthy (JStr s) = (s \<noteq> [])"
| "truthy (JArr xs) = (xs \<noteq> [])"
| "truthy (JObj kvs) = (kvs \<noteq> [])"

text \<open>\<^verbatim>\<open>d.get(key, default)\<close> on a dictionary.\<close>

definition dict_get :: "(string \<times> json) list \<Rightarrow> string \<Rightarrow> json \<Rightarrow> json" where
  "dict_get d k dflt = (case map_of d k of Some v \<Rightarrow> v | None \<Rightarrow> dflt)"

text \<open>
  \<^verbatim>\<open>v[key]\<close> with a string key: a dictionary raises \<^verbatim>\<open>KeyError\<close> for a missing key,
  every other value raises \<^verbatim>\<open>TypeError\<close>.
\<close>

definition getitem :: "json \<Rightarrow> string \<Rightarrow> error + json" where
  "getitem v k =
     (case v of
        JObj d \<Rightarrow> (case map_of d k of Some x \<Rightarrow> Inr x | None \<Rightarrow> Inl KeyError)
      | _ \<Rightarrow> Inl TypeError)"

text \<open>\<^verbatim>\<open>xs[:n]\<close>: a negative \<open>n\<close> counts from the end.\<close>

definition slice_to :: "'a list \<Rightarrow> int \<Rightarrow> 'a list" where
  "slice_to xs n = (if 0 \<le> n then take (nat n) xs else take (length xs - nat (- n)) xs)"

text \<open>
  Hashable values, and \<^verbatim>\<open>==\<close> between them: \<^verbatim>\<open>True == 1\<close> and \<^verbatim>\<open>False == 0\<close>, every
  other pair is equal when it is the same value.
\<close>

fun hashable :: "json \<Rightarrow> bool" where
  "hashable (JArr xs) = False"
| "hashable (JObj kvs) = False"
| "hashable v = True"

fun py_eq :: "json \<Rightarrow> json \<Rightarrow> bool" where
  "py_eq (JBool b) (JInt n) = (n = (if b then 1 else 0))"
| "py_eq (JInt n) (JBool b) = (n = (if b then 1 else 0))"
| "py_eq x y = (x = y)"

text \<open>
  \<^verbatim>\<open>set(v)\<close>, as the list of its elements: the elements of a list, the characters of a
  string, the keys of a dictionary; \<^verbatim>\<open>TypeError\<close> for a value that cannot be iterated or
  an element that cannot be hashed.
\<close>

definition set_of :: "json \<Rightarrow> error + json list" where
  "set_of v =
     (case v of
        JArr xs \<Rightarrow> if list_all hashable xs then Inr xs else Inl TypeError
      | JStr s \<Rightarrow> Inr (map (\<lambda>c. JStr [c]) s)
      | JObj d \<Rightarrow> Inr (map (\<lambda>kv. JStr (fst kv)) d)
      | _ \<Rightarrow> Inl TypeError)"

text \<open>\<^verbatim>\<open>x in s\<close> for a set \<open>s\<close>, once \<open>x\<close> is known to be hashable.\<close>

definition member_of :: "json \<Rightarrow> json list \<Rightarrow> bool" where
  "member_of x s = list_ex (py_eq x) s"

subsection \<open>Numbers and dates as text\<close>

text \<open>\<^verbatim>\<open>str(n)\<close> for \<open>n \<ge> 0\<close>, and \<^verbatim>\<open>'%0wd' % n\<close>.\<close>

fun show_nat :: "nat \<Rightarrow> string" where
  "show_nat n =
     (if n < 10 then [''0123456789'' ! n]
      else show_nat (n div 10) @ [''0123456789'' ! (n mod 10)])"

declare show_nat.simps [simp del]

definition zero_padded :: "nat \<Rightarrow> nat \<Rightarrow> string" where
  "zero_padded width n = replicate (width - length (show_nat n)) CHR ''0'' @ show_nat n"

text \<open>
  A \<^verbatim>\<open>datetime\<close>: its fields, the day of the week its date falls on, and the offset from
  UTC in minutes when it has a time zone.
\<close>

datatype weekday = Mon | Tue | Wed | Thu | Fri | Sat | Sun

datatype month = Jan | Feb | Mar | Apr | May | Jun | Jul | Aug | Sep | Oct | Nov | Dec

record datetime =
  year :: nat
  month :: month
  day :: nat
  hour :: nat
  minute :: nat
  second :: nat
  microsecond :: nat
  weekday :: weekday
  utcoffset :: "int option"

fun weekday_name :: "weekday \<Rightarrow> string" where
  "weekday_name Mon = ''Mon''" | "weekday_name Tue = ''Tue''" | "weekday_name Wed = ''Wed''"
| "weekday_name Thu = ''Thu''" | "weekday_name Fri = ''Fri''" | "weekday_name Sat = ''Sat''"
| "weekday_name Sun = ''Sun''"

fun month_name :: "month \<Rightarrow> string" where
  "month_name Jan = ''Jan''" | "month_name Feb = ''Feb''" | "month_name Mar = ''Mar''"
| "month_name Apr = ''Apr''" | "month_name May = ''May''" | "month_name Jun = ''Jun''"
| "month_name Jul = ''Jul''" | "month_name Aug = ''Aug''" | "month_name Sep = ''Sep''"
| "month_name Oct = ''Oct''" | "month_name Nov = ''Nov''" | "month_name Dec = ''Dec''"

fun month_number :: "month \<Rightarrow> nat" where
  "month_number Jan = 1" | "month_number Feb = 2" | "month_number Mar = 3"
| "month_number Apr = 4" | "month_number May = 5" | "month_number Jun = 6"
| "month_number Jul = 7" | "month_number Aug = 8" | "month_number Sep = 9"
| "month_number Oct = 10" | "month_number Nov = 11" | "month_number Dec = 12"

text \<open>The sign, hours and minutes of an offset, with \<open>sep\<close> between the last two.\<close>

definition offset_text :: "string \<Rightarrow> int \<Rightarrow> string" where
  "offset_text sep off =
     (if off < 0 then ''-'' else ''+'') @ zero_padded 2 (nat \<bar>off\<bar> div 60) @ sep @
     zero_padded 2 (nat \<bar>off\<bar> mod 60)"

text \<open>
  \<^verbatim>\<open>email.utils.format_datetime(d)\<close>:
  \<^verbatim>\<open>'%s, %02d %s %04d %02d:%02d:%02d %s'\<close> of the day name, day, month name, year, time and
  zone; the zone is \<^verbatim>\<open>-0000\<close> for a datetime without a time zone and \<^verbatim>\<open>strftime("%z")\<close>
  otherwise.
\<close>

definition format_datetime :: "datetime \<Rightarrow> string" where
  "format_datetime d =
     weekday_name (weekday d) @ '', '' @ zero_padded 2 (day d) @ '' '' @ month_name (month d) @
     '' '' @ zero_padded 4 (year d) @ '' '' @ zero_padded 2 (hour d) @ '':'' @
     zero_padded 2 (minute d) @ '':'' @ zero_padded 2 (second d) @ '' '' @
     (case utcoffset d of None \<Rightarrow> ''-0000'' | Some off \<Rightarrow> offset_text [] off)"

text \<open>\<^verbatim>\<open>d.isoformat()\<close>\<close>

definition isoformat :: "datetime \<Rightarrow> string" where
  "isoformat d =
     zero_padded 4 (year d) @ ''-'' @ zero_padded 2 (month_number (month d)) @ ''-'' @
     zero_padded 2 (day d) @ ''T'' @ zero_padded 2 (hour d) @ '':'' @ zero_padded 2 (minute d) @
     '':'' @ zero_padded 2 (second d) @
     (if microsecond d = 0 then [] else ''.'' @ zero_padded 6 (microsecond d)) @
     (case utcoffset d of None \<Rightarrow> [] | Some off \<Rightarrow> offset_text '':'' off)"

subsection \<open>The world the program runs in\<close>

text \<open>
  A request is the URL \<^verbatim>\<open>fetch_json\<close> is called with: \<^verbatim>\<open>TOP_URL_TEMPLATE\<close> with its two
  numbers, or \<^verbatim>\<open>ARTICLE_URL_TEMPLATE\<close> with the identifier it is formatted with.
  \<^verbatim>\<open>session.get\<close> either raises (\<open>Failed\<close>) or returns a response: its status code, the
  value of its \<^verbatim>\<open>Retry-After\<close> header if it has one, and the value \<^verbatim>\<open>response.json()\<close>
  decodes (\<open>None\<close> when the body is not JSON and decoding raises).
\<close>

datatype request = TopArticles int int | Article json

datatype outcome = Failed | Response nat "string option" "json option"

text \<open>
  What a file holds. \<open>JsonDump v indent sort_keys\<close> is the text
  \<^verbatim>\<open>json.dump(v, indent=indent, sort_keys=sort_keys)\<close> writes (and stands for every file
  whose text is a JSON document of the value \<open>v\<close>): \<^verbatim>\<open>json.load\<close> gives \<open>v\<close> back.
  \<open>PlainText s\<close> is a file with the text \<open>s\<close> that is not a JSON document, such as the empty
  file or a feed: \<^verbatim>\<open>json.load\<close> raises on it.
\<close>

datatype contents = PlainText string | JsonDump json nat bool

text \<open>
  The world: the outcome of the \<open>k\<close>-th \<^verbatim>\<open>session.get\<close> call for each request and the
  number of calls made; the successive values of \<^verbatim>\<open>random.uniform(0, 1)\<close> and the number
  drawn; the arguments of the \<^verbatim>\<open>time.sleep\<close> calls; the successive readings of
  \<^verbatim>\<open>datetime.now(timezone.utc)\<close> and the number taken; the files; the lines printed.
  Writing a file is taken to succeed.
\<close>

record world =
  net :: "nat \<Rightarrow> request \<Rightarrow> outcome"
  gets :: nat
  uniform :: "nat \<Rightarrow> real"
  draws :: nat
  slept :: "real list"
  clock :: "nat \<Rightarrow> datetime"
  ticks :: nat
  files :: "string \<Rightarrow> contents option"
  printed :: "string list"

text \<open>
  The two library functions that stay parameters: the HTML parser
  (\<^verbatim>\<open>BeautifulSoup(markup, "html.parser")\<close>, as the soup of a string) and
  \<^verbatim>\<open>datetime.fromisoformat\<close> (\<open>None\<close> when it raises \<^verbatim>\<open>ValueError\<close>). The parser is
  not total: \<^verbatim>\<open>html.parser\<close> gives up on some strings (in Python 3.11 with an
  \<^verbatim>\<open>AssertionError\<close> on a marked section such as \<^verbatim>\<open><![x]>\<close>), and \<^verbatim>\<open>BeautifulSoup\<close>
  then raises \<^verbatim>\<open>ParserRejectedMarkup\<close>; \<open>None\<close> is that case.
\<close>

record library =
  html_parser :: "string \<Rightarrow> node list option"
  fromisoformat :: "string \<Rightarrow> datetime option"

text \<open>
  \<^verbatim>\<open>extract_paragraphs(body_html, fallback_text)\<close> as a whole, lines 45 to 72: the body
  is parsed, which can raise, and the paragraphs are taken from the soup.
\<close>

definition extract_paragraphs_html ::
  "library \<Rightarrow> string \<Rightarrow> string option \<Rightarrow> error + string list" where
  "extract_paragraphs_html lib body_html fallback_text =
     (case html_parser lib body_html of
        None \<Rightarrow> Inl ParserRejectedMarkup
      | Some soup \<Rightarrow> Inr (extract_paragraphs soup fallback_text))"

subsection \<open>fetch\_json\<close>

text \<open>\<^verbatim>\<open>response.raise_for_status()\<close>: an error for a status from 400 to 599.\<close>

definition raise_for_status :: "nat \<Rightarrow> error option" where
  "raise_for_status status =
     (if 400 \<le> status \<and> status < 600 then Some (HTTPError status) else None)"

text \<open>
  \<^verbatim>\<open>str.isdigit()\<close> on a header value, whose characters are below U+0100: the decimal
  digits and the superscript digits U+00B2, U+00B3 and U+00B9.
\<close>

definition decimal_char :: "char \<Rightarrow> bool" where
  "decimal_char c \<longleftrightarrow> c \<in> set ''0123456789''"

definition isdigit :: "string \<Rightarrow> bool" where
  "isdigit s \<longleftrightarrow>
     s \<noteq> [] \<and> list_all (\<lambda>c. decimal_char c \<or> c \<in> set [CHR 0xB2, CHR 0xB3, CHR 0xB9]) s"

text \<open>
  \<^verbatim>\<open>int(s)\<close> for a string that passed \<^verbatim>\<open>isdigit\<close>: its value when every character is a
  decimal digit and there are no more of them than \<^verbatim>\<open>sys.get_int_max_str_digits()\<close>
  allows (4300 unless the interpreter is configured otherwise; leading zeros count),
  \<^verbatim>\<open>ValueError\<close> otherwise (a superscript digit is no decimal).
\<close>

definition MAX_STR_DIGITS :: nat where
  "MAX_STR_DIGITS = 4300"

definition int_of_digits :: "string \<Rightarrow> error + int" where
  "int_of_digits s =
     (if list_all decimal_char s \<and> length s \<le> MAX_STR_DIGITS
      then Inr (foldl (\<lambda>n c. 10 * n + (int (of_char c) - 48)) 0 s)
      else Inl ValueError)"

text \<open>The delay of lines 31 to 35, before the jitter is added.\<close>

definition retry_delay :: "string option \<Rightarrow> nat \<Rightarrow> error + int" where
  "retry_delay retry_after attempt =
     (case retry_after of
        Some s \<Rightarrow> if s \<noteq> [] \<and> isdigit s then int_of_digits s else Inr (2 ^ attempt)
      | None \<Rightarrow> Inr (2 ^ attempt))"

text \<open>
  Line 37, \<^verbatim>\<open>time.sleep(delay + jitter)\<close>: the time slept, or \<^verbatim>\<open>OverflowError\<close>.
  \<^verbatim>\<open>time.sleep\<close> keeps its argument as a signed 64-bit number of nanoseconds and raises
  \<^verbatim>\<open>OverflowError\<close> for a time of \<open>2 ^ 63\<close> nanoseconds or more; so does the sum itself
  for an integer beyond the floating point numbers, which is far above that bound. The
  sum is taken in the real numbers: the rounding of floating point arithmetic is not
  modelled. A wait that \<^verbatim>\<open>time.sleep\<close> accepts is taken to elapse (what the operating
  system does with a wait of centuries is outside the model).
\<close>

definition MAX_SLEEP :: real where
  "MAX_SLEEP = 2 ^ 63 / 10 ^ 9"

definition sleep_time :: "int \<Rightarrow> real \<Rightarrow> error + real" where
  "sleep_time delay jitter =
     (if real_of_int delay + jitter < MAX_SLEEP then Inr (real_of_int delay + jitter)
      else Inl OverflowError)"

text \<open>
  The loop \<^verbatim>\<open>for attempt in range(retries + 1)\<close> with the iterations left, and what
  follows it. \<open>last_response\<close> is the status of the last response seen. The jitter is
  drawn before the sleep, so a sleep that raises leaves one more number drawn.
\<close>

fun fetch_attempts ::
  "request \<Rightarrow> nat \<Rightarrow> nat \<Rightarrow> nat option \<Rightarrow> world \<Rightarrow> (error + json) \<times> world" where
  "fetch_attempts url attempt 0 last_response w =
     (case last_response of
        Some status \<Rightarrow>
          (case raise_for_status status of
             Some e \<Rightarrow> (Inl e, w)
           | None \<Rightarrow> (Inl (RuntimeError ''Request failed without a response.''), w))
      | None \<Rightarrow> (Inl (RuntimeError ''Request failed without a response.''), w))"
| "fetch_attempts url attempt (Suc left) last_response w =
     (case net w (gets w) url of
        Failed \<Rightarrow> (Inl RequestException, w\<lparr>gets := gets w + 1\<rparr>)
      | Response status retry_after body \<Rightarrow>
          if status \<noteq> 429 then
            (case raise_for_status status of
               Some e \<Rightarrow> (Inl e, w\<lparr>gets := gets w + 1\<rparr>)
             | None \<Rightarrow>
                 (case body of
                    None \<Rightarrow> (Inl JSONDecodeError, w\<lparr>gets := gets w + 1\<rparr>)
                  | Some v \<Rightarrow> (Inr v, w\<lparr>gets := gets w + 1\<rparr>)))
          else
            (case retry_delay retry_after attempt of
               Inl e \<Rightarrow> (Inl e, w\<lparr>gets := gets w + 1\<rparr>)
             | Inr delay \<Rightarrow>
                 (case sleep_time delay (uniform w (draws w)) of
                    Inl e \<Rightarrow> (Inl e, w\<lparr>gets := gets w + 1, draws := draws w + 1\<rparr>)
                  | Inr t \<Rightarrow>
                      fetch_attempts url (attempt + 1) left (Some status)
                        (w\<lparr>gets := gets w + 1, draws := draws w + 1,
                           slept := slept w @ [t]\<rparr>))))"

definition fetch_json :: "request \<Rightarrow> int \<Rightarrow> world \<Rightarrow> (error + json) \<times> world" where
  "fetch_json url retries w = fetch_attempts url 0 (nat (retries + 1)) None w"

subsection \<open>collect\_items\<close>

definition NO_ARTICLES :: string where
  "NO_ARTICLES = ''No articles returned from the DEV.to API.''"

text \<open>The dictionary the loop appends for one article.\<close>

record item =
  item_id :: json
  item_title :: json
  item_link :: json
  item_pub_date :: string
  item_content :: string

text \<open>
  \<^verbatim>\<open>top_articles[:limit]\<close> as the loop iterates it: the elements of a list, the
  characters of a string; another value cannot be sliced.
\<close>

definition articles_upto :: "json \<Rightarrow> int \<Rightarrow> error + json list" where
  "articles_upto top_articles limit =
     (case top_articles of
        JArr xs \<Rightarrow> Inr (slice_to xs limit)
      | JStr s \<Rightarrow> Inr (map (\<lambda>c. JStr [c]) (slice_to s limit))
      | _ \<Rightarrow> Inl TypeError)"

text \<open>
  Lines 136 and 137 with a description of any type. The body is parsed first, and a body
  the parser gives up on ends the call. A string is the fallback text, and \<^verbatim>\<open>None\<close> is
  none. Any other value is appended by \<^verbatim>\<open>extract_paragraphs\<close> only when it is true and
  fewer than two paragraphs were collected, and then \<^verbatim>\<open>html.escape\<close> raises on it in
  \<^verbatim>\<open>paragraphs_to_html\<close>; otherwise it plays no part.
\<close>

definition content_of :: "library \<Rightarrow> string \<Rightarrow> json \<Rightarrow> error + string" where
  "content_of lib body_html description =
     (case html_parser lib body_html of
        None \<Rightarrow> Inl ParserRejectedMarkup
      | Some soup \<Rightarrow>
          (case description of
             JStr s \<Rightarrow> Inr (paragraphs_to_html (extract_paragraphs soup (Some s)))
           | JNull \<Rightarrow> Inr (paragraphs_to_html (extract_paragraphs soup None))
           | v \<Rightarrow>
               if truthy v \<and> length (collect_paragraphs (find_all BLOCK_TAGS soup) []) < 2
               then Inl AttributeError
               else Inr (paragraphs_to_html (extract_paragraphs soup None))))"

text \<open>
  Lines 136 to 154, the body of the loop after the detail was fetched. \<^verbatim>\<open>.get\<close> needs a
  dictionary, the parser needs a string (\<^verbatim>\<open>TypeError\<close> otherwise), \<^verbatim>\<open>.replace\<close> needs a
  string; the clock is read only when the article has no timestamp.
\<close>

text \<open>Line 139: \<^verbatim>\<open>detail.get("published_at") or detail.get("created_at")\<close>\<close>

definition published_of :: "(string \<times> json) list \<Rightarrow> json" where
  "published_of d =
     (if truthy (dict_get d ''published_at'' JNull) then dict_get d ''published_at'' JNull
      else dict_get d ''created_at'' JNull)"

definition item_of ::
  "library \<Rightarrow> json \<Rightarrow> json \<Rightarrow> json \<Rightarrow> world \<Rightarrow> (error + item) \<times> world" where
  "item_of lib article_id article detail w =
     (case detail of
        JObj d \<Rightarrow>
          (case article of
             JObj a \<Rightarrow>
               (case dict_get d ''body_html'' (JStr []) of
                  JStr body_html \<Rightarrow>
                    (case content_of lib body_html (dict_get a ''description'' JNull) of
                       Inl e \<Rightarrow> (Inl e, w)
                     | Inr content_html \<Rightarrow>
                         let published = published_of d;
                             title = dict_get d ''title'' (dict_get a ''title'' (JStr ''Untitled''));
                             link = dict_get d ''url'' (dict_get a ''url'' JNull)
                         in
                           if truthy published then
                             (case published of
                                JStr p \<Rightarrow>
                                  (case fromisoformat lib (replace_char CHR ''Z'' ''+00:00'' p) of
                                     None \<Rightarrow> (Inl ValueError, w)
                                   | Some published_dt \<Rightarrow>
                                       (Inr \<lparr>item_id = article_id, item_title = title,
                                             item_link = link,
                                             item_pub_date = format_datetime published_dt,
                                             item_content = content_html\<rparr>, w))
                              | _ \<Rightarrow> (Inl AttributeError, w))
                           else
                             (Inr \<lparr>item_id = article_id, item_title = title, item_link = link,
                                   item_pub_date = format_datetime (clock w (ticks w)),
                                   item_content = content_html\<rparr>,
                              w\<lparr>ticks := ticks w + 1\<rparr>))
                | _ \<Rightarrow> (Inl TypeError, w))
           | _ \<Rightarrow> (Inl AttributeError, w))
      | _ \<Rightarrow> (Inl AttributeError, w))"

text \<open>The loop over the articles, with the items built so far.\<close>

fun collect_loop ::
  "library \<Rightarrow> json list \<Rightarrow> item list \<Rightarrow> world \<Rightarrow> (error + item list) \<times> world" where
  "collect_loop lib [] items w = (Inr items, w)"
| "collect_loop lib (article # rest) items w =
     (case getitem article ''id'' of
        Inl e \<Rightarrow> (Inl e, w)
      | Inr article_id \<Rightarrow>
          (case fetch_json (Article article_id) 3 w of
             (Inl e, w1) \<Rightarrow> (Inl e, w1)
           | (Inr detail, w1) \<Rightarrow>
               (case item_of lib article_id article detail w1 of
                  (Inl e, w2) \<Rightarrow> (Inl e, w2)
                | (Inr it, w2) \<Rightarrow> collect_loop lib rest (items @ [it]) w2)))"

definition collect_items ::
  "library \<Rightarrow> int \<Rightarrow> int \<Rightarrow> world \<Rightarrow> (error + item list) \<times> world" where
  "collect_items lib limit top_days w =
     (case fetch_json (TopArticles top_days limit) 3 w of
        (Inl e, w1) \<Rightarrow> (Inl e, w1)
      | (Inr top_articles, w1) \<Rightarrow>
          if \<not> truthy top_articles then (Inl (RuntimeError NO_ARTICLES), w1)
          else
            (case articles_upto top_articles limit of
               Inl e \<Rightarrow> (Inl e, w1)
             | Inr articles \<Rightarrow> collect_loop lib articles [] w1))"

subsection \<open>write\_feed, load\_state, save\_state\<close>

text \<open>
  What \<^verbatim>\<open>build_rss\<close> reads of an item; \<open>None\<close> when the title or the link is not a
  string, where \<^verbatim>\<open>html.escape\<close> raises \<^verbatim>\<open>AttributeError\<close>.
\<close>

definition feed_item_of :: "item \<Rightarrow> feed_item option" where
  "feed_item_of it =
     (case (item_title it, item_link it) of
        (JStr t, JStr l) \<Rightarrow>
          Some \<lparr>title = t, link = l, pub_date = item_pub_date it, content = item_content it\<rparr>
      | _ \<Rightarrow> None)"

text \<open>
  \<^verbatim>\<open>write_feed\<close>: \<^verbatim>\<open>build_rss\<close> reads the clock, then renders the items or raises; the
  file is opened and written only after it returned.
\<close>

definition write_feed :: "string \<Rightarrow> item list \<Rightarrow> world \<Rightarrow> (error + unit) \<times> world" where
  "write_feed output_path items w =
     (let now = format_datetime (clock w (ticks w));
          w1 = w\<lparr>ticks := ticks w + 1\<rparr>
      in case those (map feed_item_of items) of
           None \<Rightarrow> (Inl AttributeError, w1)
         | Some feed_items \<Rightarrow>
             (Inr (),
              w1\<lparr>files := (files w1)(output_path \<mapsto> PlainText (build_rss now feed_items))\<rparr>))"

definition load_state :: "string \<Rightarrow> world \<Rightarrow> error + json" where
  "load_state path w =
     (case files w path of
        None \<Rightarrow> Inr (JObj [])
      | Some (JsonDump v indent sort_keys) \<Rightarrow> Inr v
      | Some (PlainText s) \<Rightarrow> Inl JSONDecodeError)"

definition save_state :: "string \<Rightarrow> json \<Rightarrow> world \<Rightarrow> world" where
  "save_state path state w = w\<lparr>files := (files w)(path \<mapsto> JsonDump state 2 True)\<rparr>"

subsection \<open>refresh\<close>

record config =
  limit :: int
  top_days :: int
  output_path :: string
  state_file :: string

text \<open>
  Line 255: the current identifiers that are not in the set of the previous ones; the
  membership test raises \<^verbatim>\<open>TypeError\<close> on an identifier that cannot be hashed.
\<close>

fun new_ids :: "json list \<Rightarrow> json list \<Rightarrow> error + json list" where
  "new_ids previous_ids [] = Inr []"
| "new_ids previous_ids (article_id # current_ids) =
     (if \<not> hashable article_id then Inl TypeError
      else
        (case new_ids previous_ids current_ids of
           Inl e \<Rightarrow> Inl e
         | Inr found \<Rightarrow>
             Inr (if member_of article_id previous_ids then found else article_id # found)))"

text \<open>
  What one cycle ends with: the items, the new identifiers, and the count it returns
  (the source returns the count only; the two lists are its local variables).
\<close>

record cycle =
  cycle_items :: "item list"
  cycle_new_ids :: "json list"
  cycle_count :: nat

definition refresh :: "library \<Rightarrow> config \<Rightarrow> world \<Rightarrow> (error + cycle) \<times> world" where
  "refresh lib args w =
     (case collect_items lib (limit args) (top_days args) w of
        (Inl e, w1) \<Rightarrow> (Inl e, w1)
      | (Inr items, w1) \<Rightarrow>
          (case write_feed (output_path args) items w1 of
             (Inl e, w2) \<Rightarrow> (Inl e, w2)
           | (Inr u, w2) \<Rightarrow>
               (case load_state (state_file args) w2 of
                  Inl e \<Rightarrow> (Inl e, w2)
                | Inr (JObj state) \<Rightarrow>
                    (case set_of (dict_get state ''latest_ids'' (JArr [])) of
                       Inl e \<Rightarrow> (Inl e, w2)
                     | Inr previous_ids \<Rightarrow>
                         (case new_ids previous_ids (map item_id items) of
                            Inl e \<Rightarrow> (Inl e, w2)
                          | Inr found \<Rightarrow>
                              let state1 =
                                    AList.update ''latest_ids'' (JArr (map item_id items)) state;
                                  state2 = AList.update ''updated_at''
                                             (JStr (isoformat (clock w2 (ticks w2)))) state1;
                                  w3 = save_state (state_file args) (JObj state2)
                                         (w2\<lparr>ticks := ticks w2 + 1\<rparr>);
                                  line =
                                    (if found \<noteq> []
                                     then ''Found '' @ show_nat (length found) @
                                          '' new articles. Feed updated.''
                                     else ''No new articles. Feed refreshed.'')
                              in (Inr \<lparr>cycle_items = items, cycle_new_ids = found,
                                       cycle_count = length items\<rparr>,
                                  w3\<lparr>printed := printed w3 @ [line]\<rparr>)))
                | Inr other \<Rightarrow> (Inl AttributeError, w2))))"

text \<open>For the statements: an identifier that is an integer or a string.\<close>

fun plain_id :: "json \<Rightarrow> bool" where
  "plain_id (JInt n) = True"
| "plain_id (JStr s) = True"
| "plain_id v = False"

subsection \<open>Worlds for the examples\<close>

definition sample_time :: datetime where
  "sample_time =
     \<lparr>year = 2026, month = Nov, day = 3, hour = 15, minute = 19, second = 0, microsecond = 0,
      weekday = Tue, utcoffset = Some 0\<rparr>"

text \<open>
  A world at its start, with a server that answers every request for a URL the same way,
  a jitter of one half and a clock that stands still.
\<close>

definition quiet_world :: "(request \<Rightarrow> outcome) \<Rightarrow> (string \<Rightarrow> contents option) \<Rightarrow> world" where
  "quiet_world server fs =
     \<lparr>net = (\<lambda>k. server), gets = 0, uniform = (\<lambda>k. 1 / 2), draws = 0, slept = [],
      clock = (\<lambda>k. sample_time), ticks = 0, files = fs, printed = []\<rparr>"

text \<open>A server with no articles, and one that is rate limiting with a superscript two as delay.\<close>

definition empty_server :: "request \<Rightarrow> outcome" where
  "empty_server url = Response 200 None (Some (JArr []))"

definition superscript_server :: "request \<Rightarrow> outcome" where
  "superscript_server url = Response 429 (Some [CHR 0xB2]) None"

definition sample_args :: config where
  "sample_args = \<lparr>limit = 20, top_days = 30, output_path = ''devto_top_month.xml'',
                  state_file = ''devto_top_month_state.json''\<rparr>"

definition sample_library :: library where
  "sample_library =
     \<lparr>html_parser = (\<lambda>s. Some [Tag ''p'' [Text s]]), fromisoformat = (\<lambda>s. None)\<rparr>"

text \<open>
  A server with the articles of the given identifiers: a summary holds the identifier and
  a URL, a detail holds nothing.
\<close>

definition articles_server :: "json list \<Rightarrow> request \<Rightarrow> outcome" where
  "articles_server ids url =
     (case url of
        TopArticles days n \<Rightarrow>
          Response 200 None
            (Some (JArr (map (\<lambda>i. JObj [(''id'', i), (''url'', JStr ''https://dev.to/a'')]) ids)))
      | Article i \<Rightarrow> Response 200 None (Some (JObj [])))"

text \<open>
  Two successive worlds: a first cycle with the articles 1, 2 and 3 and no state file, and
  a second one with the articles 2, 3 and 4 and the state the first cycle leaves.
\<close>

definition w123 :: world where
  "w123 = quiet_world (articles_server [JInt 1, JInt 2, JInt 3]) Map.empty"

definition w234 :: world where
  "w234 =
     quiet_world (articles_server [JInt 2, JInt 3, JInt 4])
       [''devto_top_month_state.json'' \<mapsto>
          JsonDump
            (JObj [(''latest_ids'', JArr [JInt 1, JInt 2, JInt 3]),
                   (''updated_at'', JStr ''2026-11-03T15:19:00+00:00'')])
            2 True]"

text \<open>A world whose state file is empty, and one whose state file holds another entry.\<close>

definition w_empty_state :: world where
  "w_empty_state =
     quiet_world (articles_server [JInt 1]) [''devto_top_month_state.json'' \<mapsto> PlainText []]"

definition w_extra_state :: world where
  "w_extra_state =
     quiet_world (articles_server [JInt 1])
       [''devto_top_month_state.json'' \<mapsto> JsonDump (JObj [(''extra'', JInt 0)]) 2 True]"

text \<open>
  A server that is rate limiting with a delay of 99999999999 seconds, more than
  \<^verbatim>\<open>time.sleep\<close> accepts.
\<close>

definition long_delay_server :: "request \<Rightarrow> outcome" where
  "long_delay_server url = Response 429 (Some ''99999999999'') None"

text \<open>
  A library for the examples of \<^verbatim>\<open>extract_paragraphs\<close>: what the parser does on their
  bodies. It gives up on the body \<^verbatim>\<open><p>a</p><![x]><p>b</p>\<close>, as \<^verbatim>\<open>html.parser\<close> of
  Python 3.11 does ("unknown status keyword 'x' in marked section"). It reads the body
  \<^verbatim>\<open><p>one</p>\<close> as one paragraph and the empty body as the empty soup. A body without
  markup is one string, which \<^verbatim>\<open>BeautifulSoup\<close> shortens to one line break or one space
  when it consists of ASCII whitespace. Other bodies with markup are not among the
  examples.
\<close>

definition marked_section_body :: string where
  "marked_section_body = ''<p>a</p><![x]><p>b</p>''"

definition ASCII_SPACES :: string where
  "ASCII_SPACES = [CHR 0x20, CHR 0x0A, CHR 0x09, CHR 0x0C, CHR 0x0D]"

definition examples_parser :: "string \<Rightarrow> node list option" where
  "examples_parser s =
     (if s = marked_section_body then None
      else if s = ''<p>one</p>'' then Some [Tag ''p'' [Text ''one'']]
      else if s = [] then Some []
      else if list_all (\<lambda>c. c \<in> set ASCII_SPACES) s
      then Some [Text (if CHR 0x0A \<in> set s then ''\<newline>'' else '' '')]
      else Some [Text s])"

definition examples_library :: library where
  "examples_library = \<lparr>html_parser = examples_parser, fromisoformat = (\<lambda>s. None)\<rparr>"

text \<open>
  A server with one article whose summary holds the identifier only and whose detail
  holds nothing: no title, no URL and no timestamp anywhere.
\<close>

definition bare_server :: "request \<Rightarrow> outcome" where
  "bare_server url =
     (case url of
        TopArticles days n \<Rightarrow> Response 200 None (Some (JArr [JObj [(''id'', JInt 1)]]))
      | Article i \<Rightarrow> Response 200 None (Some (JObj [])))"

definition w_bare :: world where
  "w_bare = quiet_world bare_server Map.empty"

section \<open>Properties\<close>

subsection \<open>The content extractor\<close>

lemma collect_paragraphs_take:
  "length acc < 20 \<Longrightarrow>
   collect_paragraphs ns acc = take 20 (acc @ filter (\<lambda>t. t \<noteq> []) (map node_text ns))"
proof (induction ns arbitrary: acc)
  case Nil
  then show ?case by simp
next
  case (Cons n ns)
  show ?case
  proof (cases "node_text n = []")
    case True
    with Cons show ?thesis by simp
  next
    case False
    show ?thesis
    proof (cases "length acc = 19")
      case True
      with False show ?thesis by simp
    next
      case short: False
      with Cons.prems have "length (acc @ [node_text n]) < 20" by simp
      from Cons.IH [OF this] False short Cons.prems show ?thesis by simp
    qed
  qed
qed

lemma collected_snippets:
  "collect_paragraphs (find_all BLOCK_TAGS soup) [] = take 20 (snippets soup)"
  by (simp add: collect_paragraphs_take snippets_def)

lemma total_snippets:
  "length (filter (\<lambda>n. node_text n \<noteq> []) (find_all BLOCK_TAGS soup)) = length (snippets soup)"
  by (simp add: snippets_def filter_map comp_def)




text \<open>
  After the parse, \<^verbatim>\<open>extract_paragraphs\<close> has no failing branch and returns between 1
  and 21 snippets. When fewer than two snippets are collected, the supplied fallback text
  (if any) is appended, and if the list is still shorter than two the placeholder follows.
\<close>

lemma extract_paragraphs_bounds:
  "1 \<le> length (extract_paragraphs soup fb) \<and> length (extract_paragraphs soup fb) \<le> 21 \<and>
   (length (snippets soup) < 2 \<longrightarrow>
      extract_paragraphs soup fb =
        snippets soup @ supplied fb @
        (if length (snippets soup @ supplied fb) < 2 then [UNAVAILABLE] else [])) \<and>
   (snippets soup = [] \<longrightarrow> extract_paragraphs soup (Some ''hello'') = [''hello'', UNAVAILABLE])"
  by (auto simp: extract_paragraphs_def collected_snippets total_snippets Let_def min_def
      supplied_def split: option.splits)

lemma snippets_without_tags: "snippets [] = [] \<and> snippets [Text s] = []"
  by (simp add: snippets_def find_all_def)

text \<open>
  C2 (as amended). For every HTML body that the parser accepts, and every fallback
  argument, \<^verbatim>\<open>extract_paragraphs\<close> does not fail and returns at least 1 and at most 21
  snippets: when fewer than two snippets are collected it first appends the supplied
  fallback text (if any), and if the result is still shorter than two it appends the
  placeholder "Top DEV.to article snippet unavailable."; a body without candidate text
  and the fallback "hello" yields the fallback and the placeholder. For a body that the
  parser gives up on, \<^verbatim>\<open>extract_paragraphs\<close> fails: the error \<^verbatim>\<open>BeautifulSoup\<close> raises
  is not caught.
\<close>

theorem extract_paragraphs_html_bounds:
  "(html_parser lib body_html = None \<longrightarrow>
      extract_paragraphs_html lib body_html fb = Inl ParserRejectedMarkup) \<and>
   (\<forall>soup. html_parser lib body_html = Some soup \<longrightarrow>
      (\<exists>paragraphs.
         extract_paragraphs_html lib body_html fb = Inr paragraphs \<and>
         1 \<le> length paragraphs \<and> length paragraphs \<le> 21 \<and>
         (length (snippets soup) < 2 \<longrightarrow>
            paragraphs =
              snippets soup @ supplied fb @
              (if length (snippets soup @ supplied fb) < 2 then [UNAVAILABLE] else [])) \<and>
         (snippets soup = [] \<longrightarrow>
            extract_paragraphs_html lib body_html (Some ''hello'') =
              Inr [''hello'', UNAVAILABLE])))"
proof (intro conjI allI impI)
  assume "html_parser lib body_html = None"
  then show "extract_paragraphs_html lib body_html fb = Inl ParserRejectedMarkup"
    by (simp add: extract_paragraphs_html_def)
next
  fix soup
  assume parsed: "html_parser lib body_html = Some soup"
  then have run: "extract_paragraphs_html lib body_html fb = Inr (extract_paragraphs soup fb)"
    "extract_paragraphs_html lib body_html (Some ''hello'') =
       Inr (extract_paragraphs soup (Some ''hello''))"
    by (simp_all add: extract_paragraphs_html_def)
  from extract_paragraphs_bounds [of soup fb] run
  show "\<exists>paragraphs.
         extract_paragraphs_html lib body_html fb = Inr paragraphs \<and>
         1 \<le> length paragraphs \<and> length paragraphs \<le> 21 \<and>
         (length (snippets soup) < 2 \<longrightarrow>
            paragraphs =
              snippets soup @ supplied fb @
              (if length (snippets soup @ supplied fb) < 2 then [UNAVAILABLE] else [])) \<and>
         (snippets soup = [] \<longrightarrow>
            extract_paragraphs_html lib body_html (Some ''hello'') =
              Inr [''hello'', UNAVAILABLE])"
    by simp
qed

theorem extract_paragraphs_html_bounds_witness:
  "html_parser examples_library [] = Some [] \<and>
   html_parser examples_library ''  \<newline> '' = Some [Text ''\<newline>''] \<and>
   html_parser examples_library ''<p>one</p>'' = Some [Tag ''p'' [Text ''one'']] \<and>
   html_parser examples_library marked_section_body = None \<and>
   extract_paragraphs_html examples_library [] (Some ''hello'') = Inr [''hello'', UNAVAILABLE] \<and>
   extract_paragraphs_html examples_library ''  \<newline> '' (Some ''hello'') =
     Inr [''hello'', UNAVAILABLE] \<and>
   extract_paragraphs_html examples_library ''<p>one</p>'' None = Inr [''one'', UNAVAILABLE] \<and>
   extract_paragraphs_html examples_library marked_section_body (Some ''hello'') =
     Inl ParserRejectedMarkup"
  using extract_paragraphs_html_bounds [of examples_library "[]" "Some ''hello''"]
    extract_paragraphs_html_bounds [of examples_library "''  \<newline> ''" "Some ''hello''"]
    extract_paragraphs_html_bounds [of examples_library "''<p>one</p>''" None]
    extract_paragraphs_html_bounds [of examples_library marked_section_body "Some ''hello''"]
  by (simp add: examples_library_def examples_parser_def marked_section_body_def
      ASCII_SPACES_def snippets_without_tags snippets_def find_all_def BLOCK_TAGS_def
      node_text_def strip_def is_space_def supplied_def)

text \<open>
  The claim C2 as stated fails for the body \<^verbatim>\<open><p>a</p><![x]><p>b</p>\<close>: the parser gives
  up on it, and \<^verbatim>\<open>extract_paragraphs\<close> ends with the error instead of a list of snippets.
\<close>

theorem extract_paragraphs_rejected_counterexample:
  "html_parser examples_library ''<p>a</p><![x]><p>b</p>'' = None \<and>
   extract_paragraphs_html examples_library ''<p>a</p><![x]><p>b</p>'' None =
     Inl ParserRejectedMarkup \<and>
   extract_paragraphs_html examples_library ''<p>a</p><![x]><p>b</p>'' (Some ''hello'') =
     Inl ParserRejectedMarkup"
  by (simp add: extract_paragraphs_html_def examples_library_def examples_parser_def
      marked_section_body_def)

subsection \<open>The feed renderer\<close>

lemma escape_entities: "escape s = concat (map xml_entity s)"
  by (induction s) (auto simp: escape_def replace_char_def xml_entity_def)

lemma escape_Nil: "escape [] = []"
  by (simp add: escape_entities)

lemma escape_Cons: "escape (c # cs) = xml_entity c @ escape cs"
  by (simp add: escape_entities)

lemma escape_no_lt: "CHR ''<'' \<notin> set (escape s)"
  by (induction s) (auto simp: escape_Nil escape_Cons xml_entity_def)

lemma escape_no_gt: "CHR ''>'' \<notin> set (escape s)"
  by (induction s) (auto simp: escape_Nil escape_Cons xml_entity_def)

lemma starts_with_append: "starts_with p s \<Longrightarrow> starts_with p (s @ t)"
  by (induction p s rule: starts_with.induct) auto

lemma entity_amps_append: "entity_amps a \<Longrightarrow> entity_amps (a @ b) = entity_amps b"
  by (induction a) (auto simp: starts_with_append)

lemma entity_amps_escape: "entity_amps (escape s)"
  by (induction s) (auto simp: escape_Nil escape_Cons xml_entity_def)

lemma entity_amps_plain: "plain s \<Longrightarrow> entity_amps s"
  by (induction s) (auto simp: plain_def)

lemma outside_cdata_text:
  "CHR ''<'' \<notin> set a \<Longrightarrow> outside_cdata False (a @ rest) = a @ outside_cdata False rest"
  by (induction a) auto

lemma no_end_straddle:
  "\<not> starts_with '']]>'' (c # cs) \<Longrightarrow>
   \<not> starts_with '']]>'' ((c # cs) @ CHR '']'' # CHR '']'' # CHR ''>'' # rest)"
  by (cases cs; cases "tl cs") auto

lemma outside_cdata_section:
  "no_cdata_end s \<Longrightarrow>
   outside_cdata True (s @ CHR '']'' # CHR '']'' # CHR ''>'' # rest) = outside_cdata False rest"
proof (induction s)
  case Nil
  then show ?case by simp
next
  case (Cons c cs)
  from Cons.prems have here: "\<not> starts_with '']]>'' (c # cs)" and rest_ok: "no_cdata_end cs"
    by simp_all
  from here have "\<not> starts_with '']]>'' ((c # cs) @ CHR '']'' # CHR '']'' # CHR ''>'' # rest)"
    by (rule no_end_straddle)
  then have "outside_cdata True ((c # cs) @ CHR '']'' # CHR '']'' # CHR ''>'' # rest) =
             outside_cdata True (cs @ CHR '']'' # CHR '']'' # CHR ''>'' # rest)"
    by (simp only: append_Cons outside_cdata.simps if_False)
  with Cons.IH [OF rest_ok] show ?case by simp
qed

lemma join_append:
  "ys \<noteq> [] \<Longrightarrow> join sep (xs @ ys) = concat (map (\<lambda>x. x @ sep) xs) @ join sep ys"
proof (induction xs)
  case Nil
  then show ?case by simp
next
  case (Cons x xs)
  then obtain z zs where "xs @ ys = z # zs" by (cases "xs @ ys") auto
  with Cons show ?case by simp
qed

lemma lines_block_concat:
  "lines_block (concat (map f xs)) = concat (map (\<lambda>x. lines_block (f x)) xs)"
  by (induction xs) (simp_all add: lines_block_def)

lemma build_rss_blocks:
  "build_rss now items =
     lines_block (channel_head now) @ concat (map (\<lambda>it. lines_block (item_parts it)) items) @
     ''  </channel>\<newline></rss>''"
proof -
  have "build_rss now items =
          lines_block (channel_head now) @
          join ''\<newline>'' (concat (map item_parts items) @ [''  </channel>'', ''</rss>''])"
    unfolding build_rss_def channel_parts_def lines_block_def
    by (rule join_append) simp
  also have "join ''\<newline>'' (concat (map item_parts items) @ [''  </channel>'', ''</rss>'']) =
          lines_block (concat (map item_parts items)) @
          join ''\<newline>'' [''  </channel>'', ''</rss>'']"
    unfolding lines_block_def by (rule join_append) simp
  finally show ?thesis by (simp add: lines_block_concat)
qed

lemma tag_delimiters_add: "tag_delimiters (m + n) = tag_delimiters m @ tag_delimiters n"
  by (simp add: tag_delimiters_def replicate_add)

lemma plain_no_lt: "plain s \<Longrightarrow> CHR ''<'' \<notin> set s"
  by (induction s) (auto simp: plain_def)

lemma plain_no_brackets: "plain s \<Longrightarrow> filter (\<lambda>c. c = CHR ''<'' \<or> c = CHR ''>'') s = []"
  by (induction s) (auto simp: plain_def)

lemma escape_no_brackets: "filter (\<lambda>c. c = CHR ''<'' \<or> c = CHR ''>'') (escape s) = []"
  using escape_no_lt [of s] escape_no_gt [of s] by (auto simp: filter_empty_conv)

lemma item_block_scan:
  assumes "plain (pub_date it)" and "no_cdata_end (content it)"
  shows "\<exists>v. (\<forall>rest. outside_cdata False (lines_block (item_parts it) @ rest) =
                      v @ outside_cdata False rest) \<and>
             filter (\<lambda>c. c = CHR ''<'' \<or> c = CHR ''>'') v = tag_delimiters 14 \<and> entity_amps v"
proof -
  define v where \<open>v =
    ''    <item>\<newline>      <title>'' @ escape (title it) @ ''</title>\<newline>      <link>'' @
    escape (link it) @ ''</link>\<newline>      <guid isPermaLink="true">'' @ escape (link it) @
    ''</guid>\<newline>      <pubDate>'' @ pub_date it @
    ''</pubDate>\<newline>      <description></description>\<newline>      <content:encoded></content:encoded>\<newline>    </item>\<newline>''\<close>
  have scan: "outside_cdata False (lines_block (item_parts it) @ rest) = v @ outside_cdata False rest"
    for rest
    using assms
    by (simp add: lines_block_def item_parts_def v_def outside_cdata_text outside_cdata_section
        escape_no_lt plain_no_lt)
  have brackets: "filter (\<lambda>c. c = CHR ''<'' \<or> c = CHR ''>'') v = tag_delimiters 14"
    using assms
    by (simp add: v_def escape_no_brackets plain_no_brackets tag_delimiters_def eval_nat_numeral)
  have amps: "entity_amps v"
    using assms
    by (simp add: v_def entity_amps_append entity_amps_escape entity_amps_plain)
  from scan brackets amps show ?thesis by blast
qed

lemma head_block_scan:
  assumes "plain now"
  shows "\<exists>v. (\<forall>rest. outside_cdata False (lines_block (channel_head now) @ rest) =
                      v @ outside_cdata False rest) \<and>
             filter (\<lambda>c. c = CHR ''<'' \<or> c = CHR ''>'') v = tag_delimiters 11 \<and> entity_amps v"
proof -
  define v where "v = lines_block (channel_head now)"
  have scan: "outside_cdata False (lines_block (channel_head now) @ rest) = v @ outside_cdata False rest"
    for rest
    using assms
    by (simp add: lines_block_def channel_head_def v_def outside_cdata_text escape_no_lt plain_no_lt)
  have brackets: "filter (\<lambda>c. c = CHR ''<'' \<or> c = CHR ''>'') v = tag_delimiters 11"
    using assms
    by (simp add: v_def lines_block_def channel_head_def escape_no_brackets plain_no_brackets
        tag_delimiters_def eval_nat_numeral)
  have amps: "entity_amps v"
    using assms
    by (simp add: v_def lines_block_def channel_head_def entity_amps_append entity_amps_escape
        entity_amps_plain)
  from scan brackets amps show ?thesis by blast
qed

lemma item_blocks_scan:
  assumes "\<forall>it \<in> set items. plain (pub_date it) \<and> no_cdata_end (content it)"
  shows "\<exists>v. (\<forall>rest. outside_cdata False
                        (concat (map (\<lambda>it. lines_block (item_parts it)) items) @ rest) =
                      v @ outside_cdata False rest) \<and>
             filter (\<lambda>c. c = CHR ''<'' \<or> c = CHR ''>'') v = tag_delimiters (14 * length items) \<and>
             entity_amps v"
  using assms
proof (induction items)
  case Nil
  show ?case by (rule exI [of _ "[]"]) (simp add: tag_delimiters_def)
next
  case (Cons it items)
  then obtain v1 where v1:
    "\<And>rest. outside_cdata False (lines_block (item_parts it) @ rest) = v1 @ outside_cdata False rest"
    "filter (\<lambda>c. c = CHR ''<'' \<or> c = CHR ''>'') v1 = tag_delimiters 14" "entity_amps v1"
    using item_block_scan [of it] by auto
  from Cons obtain v2 where v2:
    "\<And>rest. outside_cdata False (concat (map (\<lambda>it. lines_block (item_parts it)) items) @ rest) =
       v2 @ outside_cdata False rest"
    "filter (\<lambda>c. c = CHR ''<'' \<or> c = CHR ''>'') v2 = tag_delimiters (14 * length items)"
    "entity_amps v2"
    by auto
  have "14 * length (it # items) = 14 + 14 * length items" by simp
  then have "tag_delimiters (14 * length (it # items)) =
             tag_delimiters 14 @ tag_delimiters (14 * length items)"
    by (simp only: tag_delimiters_add)
  with v1 v2 show ?case
    by (intro exI [of _ "v1 @ v2"]) (simp add: entity_amps_append)
qed

lemma build_rss_markup:
  assumes "plain now"
    and "\<forall>it \<in> set items. plain (pub_date it) \<and> no_cdata_end (content it)"
  shows "markup_chars (build_rss now items) = tag_delimiters (13 + 14 * length items) \<and>
         entity_amps (outside_cdata False (build_rss now items))"
proof -
  from head_block_scan [OF assms(1)] obtain v1 where v1:
    "\<And>rest. outside_cdata False (lines_block (channel_head now) @ rest) = v1 @ outside_cdata False rest"
    "filter (\<lambda>c. c = CHR ''<'' \<or> c = CHR ''>'') v1 = tag_delimiters 11" "entity_amps v1"
    by auto
  from item_blocks_scan [OF assms(2)] obtain v2 where v2:
    "\<And>rest. outside_cdata False (concat (map (\<lambda>it. lines_block (item_parts it)) items) @ rest) =
       v2 @ outside_cdata False rest"
    "filter (\<lambda>c. c = CHR ''<'' \<or> c = CHR ''>'') v2 = tag_delimiters (14 * length items)"
    "entity_amps v2"
    by auto
  have scan: "outside_cdata False (build_rss now items) = v1 @ v2 @ ''  </channel>\<newline></rss>''"
    by (simp add: build_rss_blocks v1(1) v2(1))
  have "13 + 14 * length items = 11 + (14 * length items + 2)" by simp
  then have "tag_delimiters (13 + 14 * length items) =
             tag_delimiters 11 @ tag_delimiters (14 * length items) @ tag_delimiters 2"
    by (simp only: tag_delimiters_add)
  moreover have "tag_delimiters 2 = ''<><>''"
    by (simp add: tag_delimiters_def eval_nat_numeral)
  ultimately show ?thesis
    using v1 v2 by (simp add: markup_chars_def scan entity_amps_append)
qed










subsection \<open>The HTTP fetcher\<close>

lemma fetch_attempts_frame:
  "fetch_attempts url attempt left seen w = (r, w') \<Longrightarrow>
   files w' = files w \<and> clock w' = clock w \<and> ticks w' = ticks w \<and> printed w' = printed w"
proof (induction left arbitrary: attempt seen w)
  case 0
  then show ?case by (auto split: option.splits)
next
  case (Suc left)
  then show ?case
    by (auto split: outcome.splits option.splits sum.splits if_splits)
qed

lemma fetch_json_frame:
  "fetch_json url retries w = (r, w') \<Longrightarrow>
   files w' = files w \<and> clock w' = clock w \<and> ticks w' = ticks w \<and> printed w' = printed w"
  unfolding fetch_json_def by (rule fetch_attempts_frame)

text \<open>
  What \<^verbatim>\<open>fetch_json\<close> does where the delay can be computed and slept: the delay is the
  header's number or \<open>2 ^ attempt\<close>; at most four requests are made; an error status
  other than 429 ends the call at once; four rate-limited responses end it with the HTTP
  error, after four waits of the delay plus the jitter drawn.
\<close>

lemma retry_delay_absent: "retry_delay None attempt = Inr (2 ^ attempt)"
  by (simp add: retry_delay_def)

lemma retry_delay_invalid: "\<not> isdigit s \<Longrightarrow> retry_delay (Some s) attempt = Inr (2 ^ attempt)"
  by (simp add: retry_delay_def)

lemma retry_delay_decimal:
  "s \<noteq> [] \<Longrightarrow> list_all decimal_char s \<Longrightarrow> length s \<le> MAX_STR_DIGITS \<Longrightarrow>
   retry_delay (Some s) attempt = Inr (foldl (\<lambda>n c. 10 * n + (int (of_char c) - 48)) 0 s)"
  by (simp add: retry_delay_def isdigit_def int_of_digits_def list_all_iff)

lemma retry_delay_example: "retry_delay (Some ''120'') 2 = Inr 120"
  by (simp add: retry_delay_def isdigit_def int_of_digits_def decimal_char_def
      MAX_STR_DIGITS_def)

lemma retry_delay_too_long:
  "isdigit s \<Longrightarrow> MAX_STR_DIGITS < length s \<Longrightarrow> retry_delay (Some s) attempt = Inl ValueError"
  by (auto simp: retry_delay_def isdigit_def int_of_digits_def)

lemma sleep_time_accepted:
  "real_of_int delay + jitter < MAX_SLEEP \<Longrightarrow>
   sleep_time delay jitter = Inr (real_of_int delay + jitter)"
  by (simp add: sleep_time_def)

lemma sleep_time_backoff:
  "attempt \<le> 3 \<Longrightarrow> jitter \<le> 1 \<Longrightarrow>
   sleep_time (2 ^ attempt) jitter = Inr (2 ^ attempt + jitter)"
proof -
  assume a: "attempt \<le> 3" and j: "jitter \<le> 1"
  from a have "(2::real) ^ attempt \<le> 2 ^ 3" by (intro power_increasing) simp_all
  with j have "real_of_int (2 ^ attempt) + jitter < MAX_SLEEP"
    by (simp add: MAX_SLEEP_def)
  then show ?thesis by (simp add: sleep_time_def)
qed

lemma fetch_attempts_bounded:
  "fetch_attempts url attempt left seen w = (r, w') \<Longrightarrow>
   gets w' \<le> gets w + left \<and> length (slept w') \<le> length (slept w) + left \<and> net w' = net w"
proof (induction left arbitrary: attempt seen w)
  case 0
  then show ?case by (auto split: option.splits)
next
  case (Suc left)
  show ?case
  proof (cases "net w (gets w) url")
    case Failed
    with Suc.prems show ?thesis by auto
  next
    case (Response status retry_after body)
    show ?thesis
    proof (cases "status = 429")
      case False
      with Suc.prems Response show ?thesis by (auto split: option.splits)
    next
      case True
      show ?thesis
      proof (cases "retry_delay retry_after attempt")
        case (Inl e)
        with Suc.prems Response True show ?thesis by auto
      next
        case (Inr delay)
        show ?thesis
        proof (cases "sleep_time delay (uniform w (draws w))")
          case (Inl e)
          with Suc.prems Response True Inr show ?thesis by auto
        next
          case ok: (Inr t)
          with Suc.prems Response True Inr have
            "fetch_attempts url (attempt + 1) left (Some status)
               (w\<lparr>gets := gets w + 1, draws := draws w + 1, slept := slept w @ [t]\<rparr>) = (r, w')"
            by simp
          from Suc.IH [OF this] show ?thesis by simp
        qed
      qed
    qed
  qed
qed

lemma fetch_json_at_most_four:
  "fetch_json url 3 w = (r, w') \<Longrightarrow> gets w' \<le> gets w + 4 \<and> length (slept w') \<le> length (slept w) + 4"
  using fetch_attempts_bounded [of url 0 4 None w r w'] by (simp add: fetch_json_def)

lemma fetch_json_error_status:
  assumes "net w (gets w) url = Response status retry_after body"
    and "status \<noteq> 429" and "400 \<le> status" and "status < 600"
  shows "fetch_json url 3 w = (Inl (HTTPError status), w\<lparr>gets := gets w + 1\<rparr>)"
  using assms by (simp add: fetch_json_def raise_for_status_def eval_nat_numeral)

lemma fetch_json_success:
  assumes "net w (gets w) url = Response status retry_after (Some v)"
    and "status < 400 \<or> 600 \<le> status"
  shows "fetch_json url 3 w = (Inr v, w\<lparr>gets := gets w + 1\<rparr>)"
  using assms by (auto simp: fetch_json_def raise_for_status_def eval_nat_numeral)

lemma fetch_attempts_rate_limited:
  assumes "\<forall>k < left. \<exists>retry_after body.
             net w (gets w + k) url = Response 429 retry_after body \<and>
             retry_delay retry_after (attempt + k) = Inr (delay k) \<and>
             real_of_int (delay k) + uniform w (draws w + k) < MAX_SLEEP"
    and "0 < left \<or> seen = Some 429"
  shows "fetch_attempts url attempt left seen w =
           (Inl (HTTPError 429),
            w\<lparr>gets := gets w + left, draws := draws w + left,
              slept := slept w @
                map (\<lambda>k. real_of_int (delay k) + uniform w (draws w + k)) [0..<left]\<rparr>)"
  using assms
proof (induction left arbitrary: attempt seen w delay)
  case 0
  then show ?case by (simp add: raise_for_status_def)
next
  case (Suc left)
  from Suc.prems(1) obtain retry_after body where
    first: "net w (gets w) url = Response 429 retry_after body"
      "retry_delay retry_after attempt = Inr (delay 0)"
      "real_of_int (delay 0) + uniform w (draws w) < MAX_SLEEP"
    by force
  let ?w = "w\<lparr>gets := gets w + 1, draws := draws w + 1,
               slept := slept w @ [real_of_int (delay 0) + uniform w (draws w)]\<rparr>"
  have rest: "\<forall>k < left. \<exists>retry_after body.
      net ?w (gets ?w + k) url = Response 429 retry_after body \<and>
      retry_delay retry_after (attempt + 1 + k) = Inr (delay (Suc k)) \<and>
      real_of_int (delay (Suc k)) + uniform ?w (draws ?w + k) < MAX_SLEEP"
  proof (intro allI impI)
    fix k assume "k < left"
    then have "Suc k < Suc left" by simp
    with Suc.prems(1) obtain ra b where
      "net w (gets w + Suc k) url = Response 429 ra b"
      "retry_delay ra (attempt + Suc k) = Inr (delay (Suc k))"
      "real_of_int (delay (Suc k)) + uniform w (draws w + Suc k) < MAX_SLEEP"
      by blast
    then show "\<exists>retry_after body.
      net ?w (gets ?w + k) url = Response 429 retry_after body \<and>
      retry_delay retry_after (attempt + 1 + k) = Inr (delay (Suc k)) \<and>
      real_of_int (delay (Suc k)) + uniform ?w (draws ?w + k) < MAX_SLEEP"
      by simp
  qed
  have step: "fetch_attempts url attempt (Suc left) seen w =
              fetch_attempts url (attempt + 1) left (Some 429) ?w"
    using first by (simp add: sleep_time_def)
  have shift: "map (\<lambda>k. real_of_int (delay k) + uniform w (draws w + k)) [0..<Suc left] =
        (real_of_int (delay 0) + uniform w (draws w)) #
        map (\<lambda>k. real_of_int (delay (Suc k)) + uniform w (draws w + 1 + k)) [0..<left]"
    by (simp add: upt_conv_Cons map_Suc_upt [symmetric] del: upt_Suc)
  from Suc.IH [of ?w "attempt + 1" "\<lambda>k. delay (Suc k)" "Some 429", OF rest]
  show ?case
    unfolding step by (simp add: shift del: upt_Suc)
qed

lemma fetch_json_rate_limited:
  assumes "\<forall>k < 4. \<exists>retry_after body.
             net w (gets w + k) url = Response 429 retry_after body \<and>
             retry_delay retry_after k = Inr (delay k) \<and>
             real_of_int (delay k) + uniform w (draws w + k) < MAX_SLEEP"
  shows "fetch_json url 3 w =
           (Inl (HTTPError 429),
            w\<lparr>gets := gets w + 4, draws := draws w + 4,
              slept := slept w @
                map (\<lambda>k. real_of_int (delay k) + uniform w (draws w + k)) [0..<4]\<rparr>)"
  using fetch_attempts_rate_limited [of 4 w url 0 delay None] assms
  by (simp add: fetch_json_def)

text \<open>
  A delay that passes \<^verbatim>\<open>isdigit\<close> and is more than \<^verbatim>\<open>time.sleep\<close> accepts ends the call
  with \<^verbatim>\<open>OverflowError\<close>, after one request and one number drawn, without any wait.
\<close>

lemma fetch_json_long_delay:
  "fetch_json (TopArticles 30 20) 3 (quiet_world long_delay_server Map.empty) =
     (Inl OverflowError, (quiet_world long_delay_server Map.empty)\<lparr>gets := 1, draws := 1\<rparr>)"
  by (simp add: fetch_json_def quiet_world_def long_delay_server_def retry_delay_def isdigit_def
      int_of_digits_def decimal_char_def MAX_STR_DIGITS_def sleep_time_def MAX_SLEEP_def
      eval_nat_numeral)

text \<open>
  C3 (a defect of the code). The claim holds wherever the \<^verbatim>\<open>Retry-After\<close> header is
  absent, is not accepted by \<^verbatim>\<open>isdigit\<close>, or consists of decimal digits of a delay that
  \<^verbatim>\<open>int\<close> and \<^verbatim>\<open>time.sleep\<close> accept. A header of the superscript digit U+00B2 passes
  \<^verbatim>\<open>isdigit\<close>, and \<^verbatim>\<open>int\<close> raises \<^verbatim>\<open>ValueError\<close> on it: the first rate-limited
  response ends \<^verbatim>\<open>fetch_json\<close> with that error, after one request and without any wait,
  where the claim has it wait \<open>2 ^ attempt\<close> seconds plus the jitter and try again.
\<close>

theorem fetch_json_superscript_retry_after:
  "isdigit [CHR 0xB2] \<and>
   fetch_json (TopArticles 30 20) 3 (quiet_world superscript_server Map.empty) =
     (Inl ValueError, (quiet_world superscript_server Map.empty)\<lparr>gets := 1\<rparr>) \<and>
   slept ((quiet_world superscript_server Map.empty)\<lparr>gets := 1\<rparr>) = []"
  by (simp add: fetch_json_def quiet_world_def superscript_server_def retry_delay_def isdigit_def
      int_of_digits_def decimal_char_def eval_nat_numeral)

subsection \<open>The refresh cycle\<close>

lemma format_datetime_nonempty: "format_datetime d \<noteq> []"
  by (simp add: format_datetime_def)

lemma item_of_frame:
  "item_of lib article_id article detail w = (r, w') \<Longrightarrow>
   files w' = files w \<and> clock w' = clock w \<and> printed w' = printed w"
  by (auto simp: item_of_def Let_def split: json.splits sum.splits option.splits if_splits)

lemma collect_loop_frame:
  "collect_loop lib articles items w = (r, w') \<Longrightarrow>
   files w' = files w \<and> clock w' = clock w \<and> printed w' = printed w"
proof (induction articles arbitrary: items w)
  case Nil
  then show ?case by simp
next
  case (Cons article rest)
  show ?case
  proof (cases "getitem article ''id''")
    case (Inl e)
    with Cons.prems show ?thesis by simp
  next
    case (Inr article_id)
    obtain r1 w1 where f: "fetch_json (Article article_id) 3 w = (r1, w1)"
      by (cases "fetch_json (Article article_id) 3 w")
    note fr = fetch_json_frame [OF f]
    show ?thesis
    proof (cases r1)
      case (Inl e)
      with Cons.prems Inr f fr show ?thesis by simp
    next
      case detail: (Inr detail)
      obtain r2 w2 where i: "item_of lib article_id article detail w1 = (r2, w2)"
        by (cases "item_of lib article_id article detail w1")
      note ir = item_of_frame [OF i]
      show ?thesis
      proof (cases r2)
        case (Inl e)
        with Cons.prems Inr f fr detail i ir show ?thesis by simp
      next
        case it: (Inr it)
        with Cons.prems Inr f detail i
        have "collect_loop lib rest (items @ [it]) w2 = (r, w')" by simp
        from Cons.IH [OF this] fr ir show ?thesis by simp
      qed
    qed
  qed
qed

lemma collect_items_frame:
  "collect_items lib n m w = (r, w') \<Longrightarrow>
   files w' = files w \<and> clock w' = clock w \<and> printed w' = printed w"
proof -
  assume a: "collect_items lib n m w = (r, w')"
  obtain r1 w1 where f: "fetch_json (TopArticles m n) 3 w = (r1, w1)"
    by (cases "fetch_json (TopArticles m n) 3 w")
  note fr = fetch_json_frame [OF f]
  show ?thesis
  proof (cases r1)
    case (Inl e)
    with a f fr show ?thesis by (simp add: collect_items_def)
  next
    case (Inr top_articles)
    show ?thesis
    proof (cases "articles_upto top_articles n")
      case (Inl e)
      with a f fr Inr show ?thesis by (auto simp: collect_items_def split: if_splits)
    next
      case arts: (Inr articles)
      show ?thesis
      proof (cases "truthy top_articles")
        case True
        with a f Inr arts have "collect_loop lib articles [] w1 = (r, w')"
          by (simp add: collect_items_def)
        from collect_loop_frame [OF this] fr show ?thesis by simp
      next
        case False
        with a f fr Inr show ?thesis by (simp add: collect_items_def)
      qed
    qed
  qed
qed

lemma write_feed_files:
  "write_feed path items w = (Inr u, w') \<Longrightarrow>
   (\<exists>doc. files w' = (files w)(path \<mapsto> PlainText doc)) \<and> clock w' = clock w \<and>
   ticks w' = ticks w + 1"
  by (auto simp: write_feed_def Let_def split: option.splits)

lemma new_ids_filter:
  "new_ids previous current = Inr found \<Longrightarrow>
   list_all hashable current \<and> found = filter (\<lambda>i. \<not> member_of i previous) current"
  by (induction current arbitrary: found) (auto split: if_splits sum.splits)

lemma refresh_success:
  assumes "refresh lib args w = (Inr c, w')"
  shows "\<exists>items w1 w2 state previous found.
           collect_items lib (limit args) (top_days args) w = (Inr items, w1) \<and>
           write_feed (output_path args) items w1 = (Inr (), w2) \<and>
           load_state (state_file args) w2 = Inr (JObj state) \<and>
           set_of (dict_get state ''latest_ids'' (JArr [])) = Inr previous \<and>
           new_ids previous (map item_id items) = Inr found \<and>
           c = \<lparr>cycle_items = items, cycle_new_ids = found, cycle_count = length items\<rparr> \<and>
           files w' =
             (files w2)(state_file args \<mapsto>
               JsonDump
                 (JObj (AList.update ''updated_at'' (JStr (isoformat (clock w2 (ticks w2))))
                         (AList.update ''latest_ids'' (JArr (map item_id items)) state)))
                 2 True) \<and>
           clock w' = clock w2 \<and> ticks w' = ticks w2 + 1"
  using assms
  by (auto simp: refresh_def Let_def save_state_def split: prod.splits sum.splits json.splits)

lemma refresh_successE:
  assumes "refresh lib args w = (Inr c, w')"
  obtains items w1 w2 state previous found where
    "collect_items lib (limit args) (top_days args) w = (Inr items, w1)"
    "write_feed (output_path args) items w1 = (Inr (), w2)"
    "load_state (state_file args) w2 = Inr (JObj state)"
    "set_of (dict_get state ''latest_ids'' (JArr [])) = Inr previous"
    "new_ids previous (map item_id items) = Inr found"
    "c = \<lparr>cycle_items = items, cycle_new_ids = found, cycle_count = length items\<rparr>"
    "files w' =
       (files w2)(state_file args \<mapsto>
         JsonDump
           (JObj (AList.update ''updated_at'' (JStr (isoformat (clock w2 (ticks w2))))
                   (AList.update ''latest_ids'' (JArr (map item_id items)) state)))
           2 True)"
    "clock w' = clock w2" "ticks w' = ticks w2 + 1"
  using refresh_success [OF assms] by (elim exE conjE)

lemma fetch_empty:
  "fetch_json (TopArticles 30 20) 3 (quiet_world empty_server fs) =
     (Inr (JArr []), (quiet_world empty_server fs)\<lparr>gets := 1\<rparr>)"
  by (simp add: fetch_json_def quiet_world_def empty_server_def raise_for_status_def
      eval_nat_numeral)

text \<open>
  C6. When the fetch of the top articles returns an empty list, the cycle ends with the
  error "No articles returned from the DEV.to API." (the \<^verbatim>\<open>RuntimeError\<close> that the
  specification calls NoContentError) and no file is written: neither the feed nor the
  state file.
\<close>

theorem refresh_no_articles:
  assumes "fetch_json (TopArticles (top_days args) (limit args)) 3 w = (Inr (JArr []), w1)"
  shows "refresh lib args w = (Inl (RuntimeError NO_ARTICLES), w1) \<and> files w1 = files w"
  using assms fetch_json_frame [OF assms]
  by (simp add: refresh_def collect_items_def)

theorem refresh_no_articles_witness:
  "fetch_json (TopArticles (top_days sample_args) (limit sample_args)) 3
     (quiet_world empty_server Map.empty) =
     (Inr (JArr []), (quiet_world empty_server Map.empty)\<lparr>gets := 1\<rparr>) \<and>
   refresh sample_library sample_args (quiet_world empty_server Map.empty) =
     (Inl (RuntimeError ''No articles returned from the DEV.to API.''),
      (quiet_world empty_server Map.empty)\<lparr>gets := 1\<rparr>) \<and>
   files ((quiet_world empty_server Map.empty)\<lparr>gets := 1\<rparr>) = Map.empty"
  using refresh_no_articles [of sample_args "quiet_world empty_server Map.empty"
      "(quiet_world empty_server Map.empty)\<lparr>gets := 1\<rparr>" sample_library]
  by (simp add: fetch_empty sample_args_def NO_ARTICLES_def) (simp add: quiet_world_def)

lemma member_of_plain:
  "plain_id i \<Longrightarrow> list_all plain_id ps \<Longrightarrow> member_of i ps \<longleftrightarrow> i \<in> set ps"
proof (induction ps)
  case Nil
  then show ?case by (simp add: member_of_def)
next
  case (Cons p ps)
  then have "py_eq i p \<longleftrightarrow> i = p" by (cases i; cases p) auto
  with Cons show ?case by (simp add: member_of_def)
qed

lemma dict_get_saved_ids:
  "dict_get (AList.update ''updated_at'' x (AList.update ''latest_ids'' y state)) ''latest_ids'' z = y"
  by (simp add: dict_get_def update_conv')

lemma refresh_loads_before:
  assumes "collect_items lib (limit args) (top_days args) w = (Inr items, w1)"
    and "write_feed (output_path args) items w1 = (Inr (), w2)"
    and "load_state (state_file args) w2 = Inr v"
  shows "files w2 (state_file args) = files w (state_file args) \<and>
         load_state (state_file args) w = Inr v"
proof -
  from collect_items_frame [OF assms(1)] have f1: "files w1 = files w" by simp
  from write_feed_files [OF assms(2)] obtain doc where
    f2: "files w2 = (files w1)(output_path args \<mapsto> PlainText doc)" by blast
  have "state_file args \<noteq> output_path args"
  proof
    assume "state_file args = output_path args"
    with f2 have "load_state (state_file args) w2 = Inl JSONDecodeError"
      by (simp add: load_state_def)
    with assms(3) show False by simp
  qed
  with f1 f2 have "files w2 (state_file args) = files w (state_file args)" by simp
  with assms(3) show ?thesis by (simp add: load_state_def)
qed

text \<open>
  C7. For two successive cycles (the second starts with the state file the first has
  written), the new identifiers of the second cycle are its identifiers that are not
  among those of the first, in Python's sense of membership; when the identifiers are
  integers and strings, the set of the new ones is the set difference. With the
  identifiers 1, 2, 3 and then 2, 3, 4 the second cycle finds 4.
\<close>

theorem refresh_new_identifiers:
  assumes "refresh lib args w = (Inr c1, w1)"
    and "files v (state_file args) = files w1 (state_file args)"
    and "refresh lib args v = (Inr c2, w2)"
  shows "cycle_new_ids c2 =
           filter (\<lambda>i. \<not> member_of i (map item_id (cycle_items c1)))
             (map item_id (cycle_items c2)) \<and>
         (list_all plain_id (map item_id (cycle_items c1)) \<and>
          list_all plain_id (map item_id (cycle_items c2)) \<longrightarrow>
            set (cycle_new_ids c2) =
              set (map item_id (cycle_items c2)) - set (map item_id (cycle_items c1)))"
proof -
  from assms(1) obtain items1 u1 u2 state1 previous1 found1 where
    "collect_items lib (limit args) (top_days args) w = (Inr items1, u1)"
    "write_feed (output_path args) items1 u1 = (Inr (), u2)"
    "load_state (state_file args) u2 = Inr (JObj state1)"
    "set_of (dict_get state1 ''latest_ids'' (JArr [])) = Inr previous1"
    "new_ids previous1 (map item_id items1) = Inr found1"
    and c1eq: "c1 = \<lparr>cycle_items = items1, cycle_new_ids = found1, cycle_count = length items1\<rparr>"
    and saved: "files w1 =
             (files u2)(state_file args \<mapsto>
               JsonDump
                 (JObj (AList.update ''updated_at'' (JStr (isoformat (clock u2 (ticks u2))))
                         (AList.update ''latest_ids'' (JArr (map item_id items1)) state1)))
                 2 True)"
    and "clock w1 = clock u2" "ticks w1 = ticks u2 + 1"
    by (rule refresh_successE)
  from c1eq have c1: "cycle_items c1 = items1" by simp
  from assms(3) obtain items2 v1 v2 state2 previous found where
    collect: "collect_items lib (limit args) (top_days args) v = (Inr items2, v1)" and
    feed: "write_feed (output_path args) items2 v1 = (Inr (), v2)" and
    load: "load_state (state_file args) v2 = Inr (JObj state2)" and
    prev: "set_of (dict_get state2 ''latest_ids'' (JArr [])) = Inr previous" and
    new: "new_ids previous (map item_id items2) = Inr found" and
    c2: "c2 = \<lparr>cycle_items = items2, cycle_new_ids = found, cycle_count = length items2\<rparr>" and
    "files w2 =
       (files v2)(state_file args \<mapsto>
         JsonDump
           (JObj (AList.update ''updated_at'' (JStr (isoformat (clock v2 (ticks v2))))
                   (AList.update ''latest_ids'' (JArr (map item_id items2)) state2)))
           2 True)"
    "clock w2 = clock v2" "ticks w2 = ticks v2 + 1"
    by (rule refresh_successE)
  from refresh_loads_before [OF collect feed load]
  have "load_state (state_file args) v = Inr (JObj state2)" by simp
  with assms(2) saved have
    "state2 = AList.update ''updated_at'' (JStr (isoformat (clock u2 (ticks u2))))
                (AList.update ''latest_ids'' (JArr (map item_id items1)) state1)"
    by (simp add: load_state_def)
  with prev have "previous = map item_id items1"
    by (simp add: dict_get_saved_ids set_of_def split: if_splits)
  with new_ids_filter [OF new] have
    found: "found = filter (\<lambda>i. \<not> member_of i (map item_id items1)) (map item_id items2)"
    by simp
  have "set found = set (map item_id items2) - set (map item_id items1)"
    if "list_all plain_id (map item_id items1)" and "list_all plain_id (map item_id items2)"
  proof -
    from that(2) have "\<forall>i \<in> set (map item_id items2). plain_id i"
      by (simp add: list_all_iff)
    with that(1) have
      "\<forall>i \<in> set (map item_id items2).
         member_of i (map item_id items1) \<longleftrightarrow> i \<in> set (map item_id items1)"
      using member_of_plain by blast
    with found show ?thesis by auto
  qed
  with found c1 c2 show ?thesis by simp
qed

lemma cycle_123:
  "(case fst (refresh sample_library sample_args w123) of
      Inl e \<Rightarrow> False
    | Inr c \<Rightarrow> map item_id (cycle_items c) = [JInt 1, JInt 2, JInt 3])"
  by code_simp

lemma state_123:
  "files (snd (refresh sample_library sample_args w123)) (state_file sample_args) =
     files w234 (state_file sample_args)"
  by code_simp

lemma cycle_234:
  "(case fst (refresh sample_library sample_args w234) of
      Inl e \<Rightarrow> False
    | Inr c \<Rightarrow> map item_id (cycle_items c) = [JInt 2, JInt 3, JInt 4])"
  by code_simp

theorem refresh_new_identifiers_witness:
  "map item_id (cycle_items (projr (fst (refresh sample_library sample_args w123)))) =
     [JInt 1, JInt 2, JInt 3] \<and>
   map item_id (cycle_items (projr (fst (refresh sample_library sample_args w234)))) =
     [JInt 2, JInt 3, JInt 4] \<and>
   cycle_new_ids (projr (fst (refresh sample_library sample_args w234))) = [JInt 4]"
proof -
  obtain c1 where r1: "fst (refresh sample_library sample_args w123) = Inr c1"
    and ids1: "map item_id (cycle_items c1) = [JInt 1, JInt 2, JInt 3]"
    using cycle_123 by (cases "fst (refresh sample_library sample_args w123)") auto
  obtain c2 where r2: "fst (refresh sample_library sample_args w234) = Inr c2"
    and ids2: "map item_id (cycle_items c2) = [JInt 2, JInt 3, JInt 4]"
    using cycle_234 by (cases "fst (refresh sample_library sample_args w234)") auto
  from r1 have run1: "refresh sample_library sample_args w123 =
      (Inr c1, snd (refresh sample_library sample_args w123))"
    by (simp add: prod_eq_iff)
  from r2 have run2: "refresh sample_library sample_args w234 =
      (Inr c2, snd (refresh sample_library sample_args w234))"
    by (simp add: prod_eq_iff)
  from refresh_new_identifiers [OF run1 state_123 [symmetric] run2]
  have "cycle_new_ids c2 = [JInt 4]"
    by (simp add: ids1 ids2 member_of_def)
  with r1 r2 ids1 ids2 show ?thesis by simp
qed

lemma new_ids_of_none: "new_ids [] current = Inr found \<Longrightarrow> found = current"
  using new_ids_filter [of "[]" current found] by (simp add: member_of_def)

text \<open>
  C8 (as amended). When the state file is absent, or holds the empty object, loading the
  state yields the empty state and a cycle that succeeds reports every identifier as new.
\<close>

theorem refresh_without_state:
  assumes "files w (state_file args) = None \<or>
           (\<exists>i k. files w (state_file args) = Some (JsonDump (JObj []) i k))"
    and "refresh lib args w = (Inr c, w')"
  shows "load_state (state_file args) w = Inr (JObj []) \<and>
         cycle_new_ids c = map item_id (cycle_items c)"
proof -
  from assms(1) have empty: "load_state (state_file args) w = Inr (JObj [])"
    by (auto simp: load_state_def)
  from assms(2) obtain items w1 w2 state previous found where
    collect: "collect_items lib (limit args) (top_days args) w = (Inr items, w1)" and
    feed: "write_feed (output_path args) items w1 = (Inr (), w2)" and
    load: "load_state (state_file args) w2 = Inr (JObj state)" and
    prev: "set_of (dict_get state ''latest_ids'' (JArr [])) = Inr previous" and
    new: "new_ids previous (map item_id items) = Inr found" and
    c: "c = \<lparr>cycle_items = items, cycle_new_ids = found, cycle_count = length items\<rparr>" and
    "files w' =
       (files w2)(state_file args \<mapsto>
         JsonDump
           (JObj (AList.update ''updated_at'' (JStr (isoformat (clock w2 (ticks w2))))
                   (AList.update ''latest_ids'' (JArr (map item_id items)) state)))
           2 True)"
    "clock w' = clock w2" "ticks w' = ticks w2 + 1"
    by (rule refresh_successE)
  from refresh_loads_before [OF collect feed load] empty have "state = []" by simp
  with prev have "previous = []" by (simp add: dict_get_def set_of_def)
  with new have "found = map item_id items" by (simp add: new_ids_of_none)
  with c empty show ?thesis by simp
qed

theorem refresh_without_state_witness:
  "files w123 (state_file sample_args) = None \<and>
   load_state (state_file sample_args) w123 = Inr (JObj []) \<and>
   cycle_new_ids (projr (fst (refresh sample_library sample_args w123))) =
     [JInt 1, JInt 2, JInt 3]"
proof -
  obtain c1 where r1: "fst (refresh sample_library sample_args w123) = Inr c1"
    and ids1: "map item_id (cycle_items c1) = [JInt 1, JInt 2, JInt 3]"
    using cycle_123 by (cases "fst (refresh sample_library sample_args w123)") auto
  from r1 have run1: "refresh sample_library sample_args w123 =
      (Inr c1, snd (refresh sample_library sample_args w123))"
    by (simp add: prod_eq_iff)
  have absent: "files w123 (state_file sample_args) = None"
    by (simp add: w123_def quiet_world_def)
  from refresh_without_state [OF _ run1] absent r1 ids1 show ?thesis by simp
qed

text \<open>
  The claim C8 as stated fails for an empty state file: \<^verbatim>\<open>json.load\<close> raises on it, and
  so does the cycle.
\<close>

theorem refresh_empty_state_file_counterexample:
  "files w_empty_state (state_file sample_args) = Some (PlainText []) \<and>
   load_state (state_file sample_args) w_empty_state = Inl JSONDecodeError \<and>
   fst (refresh sample_library sample_args w_empty_state) = Inl JSONDecodeError"
  by code_simp

text \<open>
  C9 (as amended). After a successful cycle the state file holds the state that was
  loaded, with its entry \<^verbatim>\<open>latest_ids\<close> set to the identifiers of the cycle in order and
  its entry \<^verbatim>\<open>updated_at\<close> set to the ISO format of the last reading of the clock, dumped
  with \<^verbatim>\<open>indent=2\<close> and \<^verbatim>\<open>sort_keys=True\<close>. Every other entry of the loaded state is
  kept; the object has exactly these two entries when the loaded state has no other key,
  as when the file was absent.
\<close>

theorem refresh_saved_state:
  assumes "refresh lib args w = (Inr c, w')"
  shows "\<exists>state saved.
           load_state (state_file args) w = Inr (JObj state) \<and>
           saved =
             AList.update ''updated_at'' (JStr (isoformat (clock w (ticks w' - 1))))
               (AList.update ''latest_ids'' (JArr (map item_id (cycle_items c))) state) \<and>
           files w' (state_file args) = Some (JsonDump (JObj saved) 2 True) \<and>
           map_of saved ''latest_ids'' = Some (JArr (map item_id (cycle_items c))) \<and>
           map_of saved ''updated_at'' = Some (JStr (isoformat (clock w (ticks w' - 1)))) \<and>
           (\<forall>k. k \<noteq> ''latest_ids'' \<and> k \<noteq> ''updated_at'' \<longrightarrow> map_of saved k = map_of state k) \<and>
           fst ` set saved = {''latest_ids'', ''updated_at''} \<union> fst ` set state \<and>
           (state = [] \<longrightarrow>
              saved = [(''latest_ids'', JArr (map item_id (cycle_items c))),
                       (''updated_at'', JStr (isoformat (clock w (ticks w' - 1))))])"
proof -
  from assms obtain items w1 w2 state previous found where
    collect: "collect_items lib (limit args) (top_days args) w = (Inr items, w1)" and
    feed: "write_feed (output_path args) items w1 = (Inr (), w2)" and
    load: "load_state (state_file args) w2 = Inr (JObj state)" and
    "set_of (dict_get state ''latest_ids'' (JArr [])) = Inr previous"
    "new_ids previous (map item_id items) = Inr found" and
    c: "c = \<lparr>cycle_items = items, cycle_new_ids = found, cycle_count = length items\<rparr>" and
    saved: "files w' =
       (files w2)(state_file args \<mapsto>
         JsonDump
           (JObj (AList.update ''updated_at'' (JStr (isoformat (clock w2 (ticks w2))))
                   (AList.update ''latest_ids'' (JArr (map item_id items)) state)))
           2 True)" and
    time: "clock w' = clock w2" "ticks w' = ticks w2 + 1"
    by (rule refresh_successE)
  from collect_items_frame [OF collect] write_feed_files [OF feed]
  have "clock w2 = clock w" by simp
  with time have now: "clock w2 (ticks w2) = clock w (ticks w' - 1)" by simp
  from refresh_loads_before [OF collect feed load]
  have before: "load_state (state_file args) w = Inr (JObj state)" by simp
  define saved_state where
    "saved_state =
       AList.update ''updated_at'' (JStr (isoformat (clock w (ticks w' - 1))))
         (AList.update ''latest_ids'' (JArr (map item_id (cycle_items c))) state)"
  have written: "files w' (state_file args) = Some (JsonDump (JObj saved_state) 2 True)"
    using saved now c by (simp add: saved_state_def)
  have ids: "map_of saved_state ''latest_ids'' = Some (JArr (map item_id (cycle_items c)))"
    and stamp: "map_of saved_state ''updated_at'' =
                  Some (JStr (isoformat (clock w (ticks w' - 1))))"
    and others: "\<forall>k. k \<noteq> ''latest_ids'' \<and> k \<noteq> ''updated_at'' \<longrightarrow>
                   map_of saved_state k = map_of state k"
    by (simp_all add: saved_state_def update_conv')
  have keys: "fst ` set saved_state = {''latest_ids'', ''updated_at''} \<union> fst ` set state"
    by (auto simp: saved_state_def dom_update)
  have fresh: "state = [] \<longrightarrow>
      saved_state = [(''latest_ids'', JArr (map item_id (cycle_items c))),
                     (''updated_at'', JStr (isoformat (clock w (ticks w' - 1))))]"
    by (simp add: saved_state_def)
  show ?thesis
  proof (intro exI conjI)
    show "load_state (state_file args) w = Inr (JObj state)" by (fact before)
    show "saved_state =
            AList.update ''updated_at'' (JStr (isoformat (clock w (ticks w' - 1))))
              (AList.update ''latest_ids'' (JArr (map item_id (cycle_items c))) state)"
      by (fact saved_state_def)
  qed (fact written ids stamp others keys fresh)+
qed

lemma isoformat_sample_time: "isoformat sample_time = ''2026-11-03T15:19:00+00:00''"
  by code_simp

theorem refresh_saved_state_witness:
  "files (snd (refresh sample_library sample_args w123)) (state_file sample_args) =
     Some (JsonDump
             (JObj [(''latest_ids'', JArr [JInt 1, JInt 2, JInt 3]),
                    (''updated_at'', JStr ''2026-11-03T15:19:00+00:00'')])
             2 True)"
proof -
  obtain c1 where r1: "fst (refresh sample_library sample_args w123) = Inr c1"
    and ids1: "map item_id (cycle_items c1) = [JInt 1, JInt 2, JInt 3]"
    using cycle_123 by (cases "fst (refresh sample_library sample_args w123)") auto
  from r1 have run1: "refresh sample_library sample_args w123 =
      (Inr c1, snd (refresh sample_library sample_args w123))"
    by (simp add: prod_eq_iff)
  have empty: "load_state (state_file sample_args) w123 = Inr (JObj [])"
    by (simp add: load_state_def w123_def quiet_world_def)
  have now: "clock w123 k = sample_time" for k
    by (simp add: w123_def quiet_world_def)
  from refresh_saved_state [OF run1] empty ids1 show ?thesis
    by (auto simp: now isoformat_sample_time)
qed

text \<open>
  The claim C9 as stated fails when the state file holds another entry: the state written
  has three entries.
\<close>

theorem refresh_extra_state_counterexample:
  "files w_extra_state (state_file sample_args) =
     Some (JsonDump (JObj [(''extra'', JInt 0)]) 2 True) \<and>
   files (snd (refresh sample_library sample_args w_extra_state)) (state_file sample_args) =
     Some (JsonDump
             (JObj [(''extra'', JInt 0), (''latest_ids'', JArr [JInt 1]),
                    (''updated_at'', JStr ''2026-11-03T15:19:00+00:00'')])
             2 True)"
  by code_simp

text \<open>
  What \<^verbatim>\<open>collect_items\<close> makes of sparse records. For a summary and a detail that are
  objects whose body, description and timestamps, where present, are strings (the body
  one the parser accepts, a timestamp that is not empty one that \<^verbatim>\<open>fromisoformat\<close>
  reads), the item is built. Its title is the detail's \<^verbatim>\<open>title\<close> entry when the detail
  has one, else the summary's when the summary has one, else "Untitled"; its link is the
  detail's \<^verbatim>\<open>url\<close> entry, else the summary's, else \<^verbatim>\<open>None\<close>; its date is never empty:
  the formatted timestamp of the article, or the formatted reading of the clock when the
  article has none.
\<close>

lemma item_of_defaults:
  assumes body: "dict_get d ''body_html'' (JStr []) = JStr b"
    and parsed: "html_parser lib b = Some soup"
    and descr: "map_of a ''description'' = None \<or> map_of a ''description'' = Some JNull \<or>
                (\<exists>s. map_of a ''description'' = Some (JStr s))"
    and stamp: "\<not> truthy (published_of d) \<or>
                (\<exists>p t. published_of d = JStr p \<and>
                       fromisoformat lib (replace_char CHR ''Z'' ''+00:00'' p) = Some t)"
  shows "\<exists>it w'.
           item_of lib article_id (JObj a) (JObj d) w = (Inr it, w') \<and> files w' = files w \<and>
           item_id it = article_id \<and>
           item_title it =
             (case map_of d ''title'' of
                Some t \<Rightarrow> t
              | None \<Rightarrow> (case map_of a ''title'' of Some t \<Rightarrow> t | None \<Rightarrow> JStr ''Untitled'')) \<and>
           item_link it =
             (case map_of d ''url'' of
                Some u \<Rightarrow> u
              | None \<Rightarrow> (case map_of a ''url'' of Some u \<Rightarrow> u | None \<Rightarrow> JNull)) \<and>
           item_pub_date it \<noteq> [] \<and>
           (\<not> truthy (published_of d) \<longrightarrow>
              item_pub_date it = format_datetime (clock w (ticks w))) \<and>
           (\<forall>p t. truthy (published_of d) \<and> published_of d = JStr p \<and>
                  fromisoformat lib (replace_char CHR ''Z'' ''+00:00'' p) = Some t \<longrightarrow>
                  item_pub_date it = format_datetime t)"
proof -
  from descr parsed obtain content_html where
    content: "content_of lib b (dict_get a ''description'' JNull) = Inr content_html"
    by (auto simp: dict_get_def content_of_def)
  show ?thesis
  proof (cases "truthy (published_of d)")
    case False
    with body content show ?thesis
      by (simp add: item_of_def Let_def dict_get_def format_datetime_nonempty
          split: option.splits)
  next
    case True
    with stamp obtain p t where
      "published_of d = JStr p" "fromisoformat lib (replace_char CHR ''Z'' ''+00:00'' p) = Some t"
      by blast
    with True body content show ?thesis
      by (simp add: item_of_def Let_def dict_get_def format_datetime_nonempty
          split: option.splits)
  qed
qed

text \<open>
  Lines 136 and 137 are \<^verbatim>\<open>extract_paragraphs\<close> as a whole followed by
  \<^verbatim>\<open>paragraphs_to_html\<close>, for a description that is a string or \<^verbatim>\<open>None\<close>.
\<close>

lemma content_of_extract:
  "content_of lib body_html (JStr s) =
     (case extract_paragraphs_html lib body_html (Some s) of
        Inl e \<Rightarrow> Inl e
      | Inr paragraphs \<Rightarrow> Inr (paragraphs_to_html paragraphs))"
  "content_of lib body_html JNull =
     (case extract_paragraphs_html lib body_html None of
        Inl e \<Rightarrow> Inl e
      | Inr paragraphs \<Rightarrow> Inr (paragraphs_to_html paragraphs))"
  by (simp_all add: content_of_def extract_paragraphs_html_def split: option.splits)

text \<open>A body the parser gives up on ends \<^verbatim>\<open>collect_items\<close> with the parser's error.\<close>

lemma item_of_rejected_body:
  "dict_get d ''body_html'' (JStr []) = JStr b \<Longrightarrow> html_parser lib b = None \<Longrightarrow>
   item_of lib article_id (JObj a) (JObj d) w = (Inl ParserRejectedMarkup, w)"
  by (simp add: item_of_def content_of_def)

text \<open>A link that is not a string cannot be rendered: \<^verbatim>\<open>html.escape\<close> raises on it.\<close>

lemma write_feed_link_none:
  "item_link it = JNull \<Longrightarrow> it \<in> set items \<Longrightarrow>
   fst (write_feed path items w) = Inl AttributeError \<and> files (snd (write_feed path items w)) = files w"
proof -
  assume none: "item_link it = JNull" and mem: "it \<in> set items"
  from none have "feed_item_of it = None"
    by (simp add: feed_item_of_def split: json.splits)
  with mem have "None \<in> set (map feed_item_of items)" by force
  then have "those (map feed_item_of items) = None"
    by (induction items) (auto split: option.splits)
  then show ?thesis by (simp add: write_feed_def Let_def)
qed

text \<open>
  C10 (a defect of the code). The claim holds for the title of a record without any
  title entry ("Untitled") and for the date of a record without any timestamp (the
  current time), as the code provides for. The link has no such default: for an article
  whose summary and detail hold no URL, \<^verbatim>\<open>article.get("url")\<close> is \<^verbatim>\<open>None\<close>, the item is
  appended with the link \<^verbatim>\<open>None\<close>, and \<^verbatim>\<open>html.escape\<close> raises \<^verbatim>\<open>AttributeError\<close> on it
  in \<^verbatim>\<open>build_rss\<close>: the cycle ends with that error and writes neither the feed nor the
  state, where the claim has a non-empty link and no error. Likewise a detail whose
  \<^verbatim>\<open>title\<close> entry is the empty string gives an item with an empty title, since
  \<^verbatim>\<open>dict.get\<close> falls back only for a key that is absent.
\<close>

theorem refresh_missing_url:
  "fst (collect_items examples_library (limit sample_args) (top_days sample_args) w_bare) =
     Inr [\<lparr>item_id = JInt 1, item_title = JStr ''Untitled'', item_link = JNull,
           item_pub_date = ''Tue, 03 Nov 2026 15:19:00 +0000'',
           item_content = ''<p>Top DEV.to article snippet unavailable.</p>''\<rparr>] \<and>
   fst (refresh examples_library sample_args w_bare) = Inl AttributeError \<and>
   files (snd (refresh examples_library sample_args w_bare)) (output_path sample_args) = None \<and>
   files (snd (refresh examples_library sample_args w_bare)) (state_file sample_args) = None \<and>
   fst (item_of examples_library (JInt 1) (JObj [(''id'', JInt 1)]) (JObj [(''title'', JStr [])])
          w_bare) =
     Inr \<lparr>item_id = JInt 1, item_title = JStr [], item_link = JNull,
          item_pub_date = ''Tue, 03 Nov 2026 15:19:00 +0000'',
          item_content = ''<p>Top DEV.to article snippet unavailable.</p>''\<rparr>"
  by code_simp

subsection \<open>The feeds the pipeline writes\<close>

text \<open>
  The content \<^verbatim>\<open>paragraphs_to_html\<close> builds never holds the end mark of a CDATA section,
  and a formatted date holds no markup character.
\<close>

lemma gt_follows_p_no_end: "gt_follows_p prev s \<Longrightarrow> no_cdata_end s"
proof (induction s arbitrary: prev)
  case Nil
  then show ?case by simp
next
  case (Cons c cs)
  from Cons.prems have "gt_follows_p c cs" by simp
  then have rest: "no_cdata_end cs" by (rule Cons.IH)
  from Cons.prems have "\<not> starts_with '']]>'' (c # cs)"
    by (cases cs; cases "tl cs") auto
  with rest show ?case by simp
qed

lemma gt_follows_p_text:
  "CHR ''>'' \<notin> set a \<Longrightarrow>
   gt_follows_p prev (a @ CHR ''<'' # rest) = gt_follows_p CHR ''<'' rest"
  by (induction a arbitrary: prev) auto

lemma gt_follows_p_paragraphs: "gt_follows_p prev (paragraphs_to_html paragraphs)"
proof (induction paragraphs arbitrary: prev)
  case Nil
  then show ?case by (simp add: paragraphs_to_html_def)
next
  case (Cons t ts)
  have "paragraphs_to_html (t # ts) = ''<p>'' @ escape t @ ''</p>'' @ paragraphs_to_html ts"
    by (simp add: paragraphs_to_html_def)
  with Cons [of "CHR ''>''"] show ?case
    by (simp add: gt_follows_p_text escape_no_gt)
qed

lemma paragraphs_to_html_no_end: "no_cdata_end (paragraphs_to_html paragraphs)"
  using gt_follows_p_paragraphs [of "CHR '' ''"] by (rule gt_follows_p_no_end)

lemma plain_append: "plain (a @ b) \<longleftrightarrow> plain a \<and> plain b"
  by (simp add: plain_def)

lemma plain_show_nat: "plain (show_nat n)"
proof (induction n rule: show_nat.induct)
  case (1 n)
  have digit: "plain [''0123456789'' ! k]" if "k < 10" for k
  proof -
    from that have "''0123456789'' ! k \<in> set ''0123456789''"
      by (intro nth_mem) simp
    then show ?thesis by (auto simp: plain_def)
  qed
  show ?case
  proof (cases "n < 10")
    case True
    with digit show ?thesis by (subst show_nat.simps) simp
  next
    case False
    with 1 digit [of "n mod 10"] show ?thesis
      by (subst show_nat.simps) (simp add: plain_append)
  qed
qed

lemma plain_Cons:
  "plain (c # s) \<longleftrightarrow> c \<noteq> CHR ''<'' \<and> c \<noteq> CHR ''>'' \<and> c \<noteq> CHR ''&'' \<and> plain s"
  by (simp add: plain_def)

lemma plain_Nil: "plain []"
  by (simp add: plain_def)

lemma plain_replicate_zero: "plain (replicate k CHR ''0'')"
  by (induction k) (simp_all add: plain_Cons plain_Nil)

lemma plain_zero_padded: "plain (zero_padded width n)"
  by (simp add: zero_padded_def plain_append plain_replicate_zero plain_show_nat)

lemma plain_offset_text: "plain (offset_text [] off)"
  by (simp add: offset_text_def plain_append plain_zero_padded plain_Cons plain_Nil)

lemma plain_format_datetime: "plain (format_datetime d)"
proof -
  have day: "plain (weekday_name wd)" for wd
    by (cases wd) (simp_all add: plain_Cons plain_Nil)
  have mon: "plain (month_name m)" for m
    by (cases m) (simp_all add: plain_Cons plain_Nil)
  have zone: "plain (case utcoffset d of None \<Rightarrow> ''-0000'' | Some off \<Rightarrow> offset_text [] off)"
    by (cases "utcoffset d") (simp_all add: plain_offset_text plain_Cons plain_Nil)
  show ?thesis
    unfolding format_datetime_def
    by (simp only: plain_append plain_Cons plain_Nil append_Cons append_Nil day mon zone
        plain_zero_padded) simp
qed

text \<open>
  So every feed a cycle writes is safe: the items \<^verbatim>\<open>collect_items\<close> builds meet the
  conditions of \<open>build_rss_markup\<close>, whatever the articles hold.
\<close>

lemma content_of_no_end: "content_of lib body_html description = Inr c \<Longrightarrow> no_cdata_end c"
  by (auto simp: content_of_def paragraphs_to_html_no_end
      split: option.splits json.splits if_splits)

lemma item_of_feed_safe:
  "item_of lib article_id article detail w = (Inr it, w') \<Longrightarrow>
   plain (item_pub_date it) \<and> no_cdata_end (item_content it)"
  by (auto simp: item_of_def Let_def plain_format_datetime content_of_no_end
      split: json.splits sum.splits option.splits if_splits)

lemma collect_loop_feed_safe:
  "collect_loop lib articles items w = (Inr r, w') \<Longrightarrow>
   \<forall>it \<in> set items. plain (item_pub_date it) \<and> no_cdata_end (item_content it) \<Longrightarrow>
   \<forall>it \<in> set r. plain (item_pub_date it) \<and> no_cdata_end (item_content it)"
proof (induction articles arbitrary: items w)
  case Nil
  then show ?case by simp
next
  case (Cons article rest)
  from Cons.prems(1) obtain article_id detail w1 it w2 where
    "getitem article ''id'' = Inr article_id"
    "fetch_json (Article article_id) 3 w = (Inr detail, w1)" and
    built: "item_of lib article_id article detail w1 = (Inr it, w2)" and
    more: "collect_loop lib rest (items @ [it]) w2 = (Inr r, w')"
    by (auto split: sum.splits prod.splits)
  from item_of_feed_safe [OF built] Cons.prems(2)
  have "\<forall>x \<in> set (items @ [it]). plain (item_pub_date x) \<and> no_cdata_end (item_content x)"
    by simp
  with more show ?case by (rule Cons.IH)
qed

lemma collect_items_feed_safe:
  assumes "collect_items lib n m w = (Inr items, w')"
  shows "\<forall>it \<in> set items. plain (item_pub_date it) \<and> no_cdata_end (item_content it)"
proof -
  from assms obtain articles w1 where "collect_loop lib articles [] w1 = (Inr items, w')"
    by (auto simp: collect_items_def split: sum.splits prod.splits if_splits)
  then show ?thesis by (rule collect_loop_feed_safe) simp
qed

lemma feed_items_safe:
  "those (map feed_item_of items) = Some feed_items \<Longrightarrow>
   \<forall>it \<in> set items. plain (item_pub_date it) \<and> no_cdata_end (item_content it) \<Longrightarrow>
   length feed_items = length items \<and>
   (\<forall>f \<in> set feed_items. plain (pub_date f) \<and> no_cdata_end (content f))"
proof (induction items arbitrary: feed_items)
  case Nil
  then show ?case by simp
next
  case (Cons it items)
  from Cons.prems(1) obtain f fs where
    f: "feed_item_of it = Some f" and fs: "those (map feed_item_of items) = Some fs" and
    all: "feed_items = f # fs"
    by (auto split: option.splits)
  from f have "pub_date f = item_pub_date it" "content f = item_content it"
    by (auto simp: feed_item_of_def split: json.splits)
  with Cons.IH [OF fs] Cons.prems(2) all show ?case by simp
qed

lemma write_feed_markup:
  assumes "write_feed path items w = (Inr u, w')"
    and "\<forall>it \<in> set items. plain (item_pub_date it) \<and> no_cdata_end (item_content it)"
  shows "\<exists>doc. files w' path = Some (PlainText doc) \<and>
               markup_chars doc = tag_delimiters (13 + 14 * length items) \<and>
               entity_amps (outside_cdata False doc)"
proof -
  from assms(1) obtain feed_items where
    fi: "those (map feed_item_of items) = Some feed_items" and
    written: "files w' path =
                Some (PlainText (build_rss (format_datetime (clock w (ticks w))) feed_items))"
    by (auto simp: write_feed_def Let_def split: option.splits)
  from feed_items_safe [OF fi assms(2)] have
    len: "length feed_items = length items" and
    safe: "\<forall>f \<in> set feed_items. plain (pub_date f) \<and> no_cdata_end (content f)"
    by simp_all
  from build_rss_markup [OF plain_format_datetime safe] len written show ?thesis
    by simp
qed

lemma refresh_feed_markup:
  assumes "refresh lib args w = (Inr c, w')"
  shows "\<exists>doc. files w' (output_path args) = Some (PlainText doc) \<and>
               markup_chars doc = tag_delimiters (13 + 14 * cycle_count c) \<and>
               entity_amps (outside_cdata False doc)"
proof -
  from assms obtain items w1 w2 state previous found where
    collect: "collect_items lib (limit args) (top_days args) w = (Inr items, w1)" and
    feed: "write_feed (output_path args) items w1 = (Inr (), w2)" and
    load: "load_state (state_file args) w2 = Inr (JObj state)" and
    "set_of (dict_get state ''latest_ids'' (JArr [])) = Inr previous"
    "new_ids previous (map item_id items) = Inr found" and
    c: "c = \<lparr>cycle_items = items, cycle_new_ids = found, cycle_count = length items\<rparr>" and
    saved: "files w' =
       (files w2)(state_file args \<mapsto>
         JsonDump
           (JObj (AList.update ''updated_at'' (JStr (isoformat (clock w2 (ticks w2))))
                   (AList.update ''latest_ids'' (JArr (map item_id items)) state)))
           2 True)" and
    "clock w' = clock w2" "ticks w' = ticks w2 + 1"
    by (rule refresh_successE)
  from write_feed_markup [OF feed collect_items_feed_safe [OF collect]] obtain doc where
    doc: "files w2 (output_path args) = Some (PlainText doc)"
      "markup_chars doc = tag_delimiters (13 + 14 * length items)"
      "entity_amps (outside_cdata False doc)"
    by blast
  have "state_file args \<noteq> output_path args"
  proof
    assume "state_file args = output_path args"
    with doc(1) have "load_state (state_file args) w2 = Inl JSONDecodeError"
      by (simp add: load_state_def)
    with load show False by simp
  qed
  with saved doc(1) have "files w' (output_path args) = Some (PlainText doc)" by simp
  with doc c show ?thesis by simp
qed

end
